theory Spec2Isabelle
  imports Main "HOL-Library.AList" "HOL-Library.Sublist"
begin

section \<open>The web build configuration of remax-cli\<close>

text \<open>
  A shallow embedding of \<^verbatim>\<open>packages/remax-cli/src/web/webpackConfig.web.ts\<close>:
  \<^verbatim>\<open>useLoader\<close>, \<^verbatim>\<open>prepare\<close> and \<^verbatim>\<open>webpackConfig\<close>, over a model of the
  webpack-chain builder the module keeps in its top-level constant \<^verbatim>\<open>config\<close>.
  Exceptions are values of the type \<open>error\<close>; the builder is explicit state that
  survives a call, also one that raises.
\<close>

subsection \<open>JavaScript values\<close>

text \<open>A \<^verbatim>\<open>RegExp\<close> object, by its source and its flags.\<close>

datatype regex = Regex string string

datatype jsval =
    Undefined
  | Bool bool
  | Num int
  | Str string
  | Rx regex
  | Arr "jsval list"
  | Obj "(string \<times> jsval) list"
  | Fn string
  | New string "jsval list"

text \<open>
  \<open>Fn c\<close> is a function or class known by its name, \<open>New c args\<close> the object
  \<^verbatim>\<open>new c(...args)\<close>.
\<close>

fun truthy :: "jsval \<Rightarrow> bool" where
  "truthy Undefined = False"
| "truthy (Bool b) = b"
| "truthy (Num n) = (n \<noteq> 0)"
| "truthy (Str s) = (s \<noteq> [])"
| "truthy _ = True"

datatype error =
    ReferenceError string
  | ModuleNotFound string
  | SyntaxError string
  | TypeError string
  | Thrown string

text \<open>
  \<open>ReferenceError x\<close>: the identifier \<open>x\<close> is not defined. \<open>ModuleNotFound m\<close>:
  \<^verbatim>\<open>require.resolve(m)\<close> found nothing. \<open>SyntaxError\<close>: \<^verbatim>\<open>new RegExp\<close> refused its
  pattern. \<open>TypeError\<close>: the builder was finalized with a plugin that has no
  constructor. \<open>Thrown msg\<close>: a collaborator or the user's hook raised.
\<close>

definition bindE :: "error + 'a \<Rightarrow> ('a \<Rightarrow> error + 'b) \<Rightarrow> error + 'b" where
  "bindE r f = (case r of Inl e \<Rightarrow> Inl e | Inr x \<Rightarrow> f x)"

subsection \<open>Node's \<^verbatim>\<open>path\<close> module (POSIX) and string replacement\<close>

fun split_sep :: "string \<Rightarrow> string list" where
  "split_sep [] = [[]]"
| "split_sep (c # cs) =
     (if c = CHR ''/'' then [] # split_sep cs
      else (case split_sep cs of [] \<Rightarrow> [[c]] | s # ss \<Rightarrow> (c # s) # ss))"

text \<open>
  \<^verbatim>\<open>normalizeString\<close>: empty segments and \<^verbatim>\<open>.\<close> are dropped, \<^verbatim>\<open>..\<close> removes the
  segment that precedes it, or is kept when there is none and the path is relative.
\<close>

fun normalizeString :: "bool \<Rightarrow> string list \<Rightarrow> string list \<Rightarrow> string list" where
  "normalizeString allowAboveRoot res [] = res"
| "normalizeString allowAboveRoot res (seg # segs) =
     normalizeString allowAboveRoot
       (if seg = [] \<or> seg = ''.'' then res
        else if seg = ''..'' then
          (if res \<noteq> [] \<and> last res \<noteq> ''..'' then butlast res
           else if allowAboveRoot then res @ [''..''] else res)
        else res @ [seg])
       segs"

fun join_sep :: "string list \<Rightarrow> string" where
  "join_sep [] = []"
| "join_sep [s] = s"
| "join_sep (s # t # ss) = s @ ''/'' @ join_sep (t # ss)"

definition path_normalize :: "string \<Rightarrow> string" where
  "path_normalize p =
     (if p = [] then ''.''
      else
        let isAbsolute = (hd p = CHR ''/'');
            trailingSeparator = (last p = CHR ''/'');
            q = join_sep (normalizeString (\<not> isAbsolute) [] (split_sep p))
        in if q = [] then (if isAbsolute then ''/'' else if trailingSeparator then ''./'' else ''.'')
           else (if isAbsolute then ''/'' else []) @ q @ (if trailingSeparator then ''/'' else []))"

definition path_join :: "string list \<Rightarrow> string" where
  "path_join args =
     (let parts = filter (\<lambda>a. a \<noteq> []) args
      in if parts = [] then ''.'' else path_normalize (join_sep parts))"

text \<open>
  \<^verbatim>\<open>path.extname\<close>: trailing slashes are ignored; the extension runs from the last
  dot of the last segment to its end, and is empty when the segment has no dot, when its
  last dot is its first character, or when the segment is \<^verbatim>\<open>..\<close>.
\<close>

definition basename_of :: "string \<Rightarrow> string" where
  "basename_of p =
     rev (takeWhile (\<lambda>c. c \<noteq> CHR ''/'') (dropWhile (\<lambda>c. c = CHR ''/'') (rev p)))"

definition extname :: "string \<Rightarrow> string" where
  "extname p =
     (let base = basename_of p;
          tail = rev (takeWhile (\<lambda>c. c \<noteq> CHR ''.'') (rev base));
          stem = rev (drop 1 (dropWhile (\<lambda>c. c \<noteq> CHR ''.'') (rev base)))
      in if CHR ''.'' \<notin> set base then []
         else if stem = [] then []
         else if stem = ''.'' \<and> tail = [] then []
         else CHR ''.'' # tail)"

text \<open>
  \<^verbatim>\<open>s.replace(pat, '')\<close> with a string pattern: the first occurrence of \<open>pat\<close> is
  removed.
\<close>

fun replace_first :: "string \<Rightarrow> string \<Rightarrow> string" where
  "replace_first pat [] = []"
| "replace_first pat (c # cs) =
     (if prefix pat (c # cs) then drop (length pat) (c # cs)
      else c # replace_first pat cs)"

text \<open>
  \<^verbatim>\<open>s.replace(new RegExp(`${ext}$`), '')\<close>. The extension is read as a pattern, not
  as text. When none of its characters is a regular-expression operator other than the
  dot, the pattern is a fixed number of characters tied to the end of \<open>s\<close>: a dot stands
  for any character but a line terminator, every other character for itself.
\<close>

definition regex_operators :: "char list" where
  "regex_operators = [CHR 0x5C, CHR ''^'', CHR ''$'', CHR ''*'', CHR ''+'', CHR ''?'',
     CHR ''('', CHR '')'', CHR ''['', CHR '']'', CHR ''{'', CHR ''}'', CHR ''|'']"

definition plain_pattern :: "string \<Rightarrow> bool" where
  "plain_pattern ext = list_all (\<lambda>c. c \<notin> set regex_operators) ext"

definition pattern_char :: "char \<Rightarrow> char \<Rightarrow> bool" where
  "pattern_char p c =
     (if p = CHR ''.'' then c \<noteq> CHR 0x0A \<and> c \<noteq> CHR 0x0D else p = c)"

definition strip_at_end :: "string \<Rightarrow> string \<Rightarrow> string" where
  "strip_at_end ext s =
     (let n = length s - length ext
      in if length ext \<le> length s \<and> list_all2 pattern_char ext (drop n s)
         then take n s else s)"

subsection \<open>The webpack-chain builder\<close>

text \<open>
  A \<^verbatim>\<open>ChainedMap\<close> keeps a JavaScript \<^verbatim>\<open>Map\<close>: an association list in insertion
  order, where setting a key that is present replaces its value in place
  (\<open>AList.update\<close>). A \<^verbatim>\<open>ChainedSet\<close> keeps a \<^verbatim>\<open>Set\<close>: a list without
  repetitions, in insertion order. The names of rules, uses and plugins are taken not to
  be array indices such as \<^verbatim>\<open>"0"\<close>, which webpack-chain would list before all other
  names, and no rule, use or plugin asks to be placed \<^verbatim>\<open>before\<close> or \<^verbatim>\<open>after\<close>
  another.
\<close>

record Use =
  use_loader :: "string option"
  use_options :: "jsval option"

record Rule =
  rule_test :: "regex option"
  rule_include :: "jsval list"
  rule_exclude :: "jsval list"
  rule_uses :: "(string \<times> Use) list"

record Plugin =
  plugin_ctor :: "jsval option"
  plugin_args :: "jsval list"

record Config =
  entryPoints :: "(string \<times> string list) list"
  cfg_devtool :: "jsval option"
  cfg_mode :: "string option"
  cfg_context :: "string option"
  resolve_extensions :: "string list"
  resolve_alias :: "(string \<times> string) list"
  output_path :: "string option"
  output_filename :: "string option"
  module_rules :: "(string \<times> Rule) list"
  plugins :: "(string \<times> Plugin) list"

definition new_Use :: Use where
  "new_Use = \<lparr>use_loader = None, use_options = None\<rparr>"

definition new_Rule :: Rule where
  "new_Rule = \<lparr>rule_test = None, rule_include = [], rule_exclude = [], rule_uses = []\<rparr>"

definition new_Plugin :: Plugin where
  "new_Plugin = \<lparr>plugin_ctor = None, plugin_args = []\<rparr>"

text \<open>\<^verbatim>\<open>new Config()\<close>, the value of the module's constant when the module is loaded.\<close>

definition new_Config :: Config where
  "new_Config =
     \<lparr>entryPoints = [], cfg_devtool = None, cfg_mode = None, cfg_context = None,
      resolve_extensions = [], resolve_alias = [], output_path = None,
      output_filename = None, module_rules = [], plugins = []\<rparr>"

definition steps :: "('a \<Rightarrow> 'a) list \<Rightarrow> 'a \<Rightarrow> 'a" where
  "steps fs x = foldl (\<lambda>a f. f a) x fs"

text \<open>\<^verbatim>\<open>ChainedSet.add\<close> and \<^verbatim>\<open>ChainedSet.merge\<close>.\<close>

definition set_add :: "'a \<Rightarrow> 'a list \<Rightarrow> 'a list" where
  "set_add x xs = (if x \<in> set xs then xs else xs @ [x])"

definition set_merge :: "'a list \<Rightarrow> 'a list \<Rightarrow> 'a list" where
  "set_merge arr xs = foldl (\<lambda>acc x. set_add x acc) xs arr"

text \<open>
  \<^verbatim>\<open>getOrCompute(k, () => fresh)\<close> followed by calls on the object it returns: the
  object stays where it is in the map, a new one goes to the end.
\<close>

definition at_key :: "string \<Rightarrow> 'a \<Rightarrow> ('a \<Rightarrow> 'a) \<Rightarrow> (string \<times> 'a) list \<Rightarrow> (string \<times> 'a) list" where
  "at_key k fresh f m =
     AList.update k (f (case map_of m k of None \<Rightarrow> fresh | Some v \<Rightarrow> v)) m"

definition config_entry :: "string \<Rightarrow> (string list \<Rightarrow> string list) \<Rightarrow> Config \<Rightarrow> Config" where
  "config_entry name f c = c\<lparr>entryPoints := at_key name [] f (entryPoints c)\<rparr>"

definition config_rule :: "string \<Rightarrow> (Rule \<Rightarrow> Rule) \<Rightarrow> Config \<Rightarrow> Config" where
  "config_rule name f c = c\<lparr>module_rules := at_key name new_Rule f (module_rules c)\<rparr>"

definition config_plugin :: "string \<Rightarrow> (Plugin \<Rightarrow> Plugin) \<Rightarrow> Config \<Rightarrow> Config" where
  "config_plugin name f c = c\<lparr>plugins := at_key name new_Plugin f (plugins c)\<rparr>"

definition rule_use :: "string \<Rightarrow> (Use \<Rightarrow> Use) \<Rightarrow> Rule \<Rightarrow> Rule" where
  "rule_use name f r = r\<lparr>rule_uses := at_key name new_Use f (rule_uses r)\<rparr>"

definition test :: "regex \<Rightarrow> Rule \<Rightarrow> Rule" where
  "test rx r = r\<lparr>rule_test := Some rx\<rparr>"

definition include_add :: "jsval \<Rightarrow> Rule \<Rightarrow> Rule" where
  "include_add v r = r\<lparr>rule_include := set_add v (rule_include r)\<rparr>"

definition include_merge :: "jsval list \<Rightarrow> Rule \<Rightarrow> Rule" where
  "include_merge vs r = r\<lparr>rule_include := set_merge vs (rule_include r)\<rparr>"

definition exclude_add :: "jsval \<Rightarrow> Rule \<Rightarrow> Rule" where
  "exclude_add v r = r\<lparr>rule_exclude := set_add v (rule_exclude r)\<rparr>"

definition loader :: "string \<Rightarrow> Use \<Rightarrow> Use" where
  "loader l u = u\<lparr>use_loader := Some l\<rparr>"

definition options' :: "jsval \<Rightarrow> Use \<Rightarrow> Use" where
  "options' v u = u\<lparr>use_options := Some v\<rparr>"

text \<open>\<^verbatim>\<open>Plugin.use(plugin, args = [])\<close>.\<close>

definition plugin_use :: "jsval \<Rightarrow> jsval list \<Rightarrow> Plugin \<Rightarrow> Plugin" where
  "plugin_use p args pl = pl\<lparr>plugin_ctor := Some p, plugin_args := args\<rparr>"

text \<open>
  \<^verbatim>\<open>ChainedMap.merge\<close> of an object whose values are strings: each key is set, in the
  order of the object's keys.
\<close>

definition alias_merge :: "(string \<times> string) list \<Rightarrow> Config \<Rightarrow> Config" where
  "alias_merge obj c =
     c\<lparr>resolve_alias := foldl (\<lambda>m kv. AList.update (fst kv) (snd kv) m) (resolve_alias c) obj\<rparr>"

subsection \<open>The finalized configuration (\<^verbatim>\<open>toConfig\<close>)\<close>

text \<open>
  A rule of the finalized configuration carries its name (webpack-chain's hidden
  \<^verbatim>\<open>__ruleNames\<close>), its matcher and the list of its loaders in the order of its uses,
  each with the name of the use; a plugin carries its name (\<^verbatim>\<open>__pluginName\<close>).
\<close>

record RuleConfig =
  rc_name :: string
  rc_test :: "regex option"
  rc_include :: "jsval list"
  rc_exclude :: "jsval list"
  rc_use :: "(string \<times> Use) list"

record Configuration =
  c_entry :: "(string \<times> string list) list"
  c_devtool :: "jsval option"
  c_mode :: "string option"
  c_context :: "string option"
  c_resolve_extensions :: "string list"
  c_resolve_alias :: "(string \<times> string) list"
  c_output_path :: "string option"
  c_output_filename :: "string option"
  c_rules :: "RuleConfig list"
  c_plugins :: "(string \<times> jsval) list"

definition Rule_toConfig :: "string \<times> Rule \<Rightarrow> RuleConfig" where
  "Rule_toConfig nr =
     \<lparr>rc_name = fst nr, rc_test = rule_test (snd nr), rc_include = rule_include (snd nr),
      rc_exclude = rule_exclude (snd nr), rc_use = rule_uses (snd nr)\<rparr>"

definition rules_toConfig :: "Config \<Rightarrow> RuleConfig list" where
  "rules_toConfig c = map Rule_toConfig (module_rules c)"

text \<open>
  \<^verbatim>\<open>Plugin.toConfig\<close>: a function is called with \<^verbatim>\<open>new\<close> on the stored arguments, an
  object is taken as the plugin itself; a plugin that was named but never given a value,
  or given a primitive, raises a \<^verbatim>\<open>TypeError\<close>. A string is the path of a module,
  loaded with \<^verbatim>\<open>require\<close>.
\<close>

definition plugin_init :: "string \<Rightarrow> jsval \<Rightarrow> jsval list \<Rightarrow> error + jsval" where
  "plugin_init name p args =
     (case p of
        Fn c \<Rightarrow> Inr (New c args)
      | New c a \<Rightarrow> Inr (New c a)
      | Obj kvs \<Rightarrow> Inr (Obj kvs)
      | Arr vs \<Rightarrow> Inr (Arr vs)
      | Rx r \<Rightarrow> Inr (Rx r)
      | _ \<Rightarrow> Inl (TypeError name))"

definition Plugin_toConfig ::
  "(string \<Rightarrow> jsval option) \<Rightarrow> string \<times> Plugin \<Rightarrow> error + string \<times> jsval" where
  "Plugin_toConfig req np =
     (case plugin_ctor (snd np) of
        None \<Rightarrow> Inl (TypeError (fst np))
      | Some (Str path) \<Rightarrow>
          (case req path of
             None \<Rightarrow> Inl (ModuleNotFound path)
           | Some v \<Rightarrow> bindE (plugin_init (fst np) v (plugin_args (snd np))) (\<lambda>i. Inr (fst np, i)))
      | Some v \<Rightarrow> bindE (plugin_init (fst np) v (plugin_args (snd np))) (\<lambda>i. Inr (fst np, i)))"

fun plugins_toConfig ::
  "(string \<Rightarrow> jsval option) \<Rightarrow> (string \<times> Plugin) list \<Rightarrow> error + (string \<times> jsval) list" where
  "plugins_toConfig req [] = Inr []"
| "plugins_toConfig req (np # rest) =
     bindE (Plugin_toConfig req np) (\<lambda>p.
     bindE (plugins_toConfig req rest) (\<lambda>ps. Inr (p # ps)))"

definition toConfig :: "(string \<Rightarrow> jsval option) \<Rightarrow> Config \<Rightarrow> error + Configuration" where
  "toConfig req c =
     bindE (plugins_toConfig req (plugins c)) (\<lambda>ps.
       Inr \<lparr>c_entry = entryPoints c, c_devtool = cfg_devtool c, c_mode = cfg_mode c,
            c_context = cfg_context c, c_resolve_extensions = resolve_extensions c,
            c_resolve_alias = resolve_alias c, c_output_path = output_path c,
            c_output_filename = output_filename c, c_rules = rules_toConfig c,
            c_plugins = ps\<rparr>)"

subsection \<open>Inputs and collaborators\<close>

text \<open>
  \<^verbatim>\<open>options.configWebpack\<close> is either not a function, or a function that receives the
  builder, may change it, and may raise.
\<close>

datatype hook = NotCallable | Callable "Config \<Rightarrow> (error + unit) \<times> Config"

record RemaxOptions =
  cwd :: string
  rootDir :: string
  output' :: string
  cssModules :: jsval
  progress :: bool
  configWebpack :: hook

type_synonym Platform = string

record Entries =
  entries_app :: string
  entries_pages :: "string list"

record Environment =
  env_raw :: "(string \<times> jsval) list"
  env_stringified :: "(string \<times> jsval) list"

record CssModuleConfig =
  css_enabled :: bool
  css_regExp :: regex

text \<open>
  Everything the file reads that it does not define: the process environment, the global
  scope in which its free identifiers are looked up, the file system, the module
  resolver, the functions it imports from the rest of the repository and from libraries.
  \<open>existsSync\<close> is \<open>None\<close> when the probe raises, \<open>require_resolve\<close> is \<open>None\<close>
  when the module is not found, \<open>getEntries\<close> is \<open>Inl msg\<close> when it raises.
  \<open>regexp_replace src s\<close> is \<^verbatim>\<open>s.replace(new RegExp(src), '')\<close> for the patterns
  \<open>strip_at_end\<close> does not cover, \<open>None\<close> when the constructor refuses \<open>src\<close>;
  \<open>regexp_test\<close> is \<^verbatim>\<open>RegExp.prototype.test\<close> for the regular expressions the
  collaborators supply.
\<close>

record world =
  dirname :: string
  NODE_ENV :: "string option"
  globals :: "string \<Rightarrow> jsval option"
  camelCase :: "string \<Rightarrow> string"
  existsSync :: "string \<Rightarrow> bool option"
  require_resolve :: "string \<Rightarrow> string option"
  require_module :: "string \<Rightarrow> jsval option"
  regexp_replace :: "string \<Rightarrow> string \<Rightarrow> string option"
  regexp_test :: "regex \<Rightarrow> string \<Rightarrow> bool"
  getEntries :: "RemaxOptions \<Rightarrow> string + Entries"
  getEnvironment :: "RemaxOptions \<Rightarrow> Platform \<Rightarrow> Environment"
  extensions :: "string list"
  matcher :: regex
  alias' :: "RemaxOptions \<Rightarrow> (string \<times> string) list"
  app :: "string \<Rightarrow> jsval"
  page :: "string list \<Rightarrow> jsval"
  nativeComponentsBabelPlugin :: "RemaxOptions \<Rightarrow> jsval"
  components :: "RemaxOptions \<Rightarrow> jsval"
  getCssModuleConfig :: "jsval \<Rightarrow> CssModuleConfig"
  resolvePostcssConfig :: "RemaxOptions \<Rightarrow> jsval"
  style_enabled :: "string \<Rightarrow> bool"
  pxToUnits :: jsval
  MiniCssExtractPlugin_loader :: string
  OptimizeEntries :: "jsval \<Rightarrow> jsval"
  NativeFiles :: "RemaxOptions \<Rightarrow> jsval"

subsection \<open>\<^verbatim>\<open>useLoader\<close> (lines 25 to 36)\<close>

definition loaderPath :: "world \<Rightarrow> string \<Rightarrow> string" where
  "loaderPath w ident = path_join [dirname w, ''./webpack/loaders'', camelCase w ident @ ''.js'']"

text \<open>
  The probe inside \<^verbatim>\<open>try\<close> returns the override when the file exists; when it does
  not, or when the probe raises, control reaches \<^verbatim>\<open>require.resolve\<close>, which
  raises when the module is not found.
\<close>

definition useLoader :: "world \<Rightarrow> string \<Rightarrow> error + string" where
  "useLoader w ident =
     (case existsSync w (loaderPath w ident) of
        Some True \<Rightarrow> Inr (loaderPath w ident)
      | _ \<Rightarrow>
         (case require_resolve w (ident @ ''-loader'') of
            Some p \<Rightarrow> Inr p
          | None \<Rightarrow> Inl (ModuleNotFound (ident @ ''-loader''))))"

subsection \<open>\<^verbatim>\<open>prepare\<close> (lines 38 to 53)\<close>

text \<open>
  \<^verbatim>\<open>m[name] = entry\<close> on an object literal: the key \<^verbatim>\<open>__proto__\<close> reaches the setter
  of \<^verbatim>\<open>Object.prototype\<close>, which ignores a string, so no property is stored; any other
  key is stored, replacing an earlier value of the same key.
\<close>

definition obj_set :: "(string \<times> string) list \<Rightarrow> string \<Rightarrow> string \<Rightarrow> (string \<times> string) list" where
  "obj_set m name entry = (if name = ''__proto__'' then m else AList.update name entry m)"

definition strip_ext :: "world \<Rightarrow> string \<Rightarrow> string \<Rightarrow> error + string" where
  "strip_ext w ext s =
     (if plain_pattern ext then Inr (strip_at_end ext s)
      else (case regexp_replace w (ext @ ''$'') s of
              Some r \<Rightarrow> Inr r
            | None \<Rightarrow> Inl (SyntaxError (ext @ ''$''))))"

definition entry_name :: "world \<Rightarrow> RemaxOptions \<Rightarrow> string \<Rightarrow> error + string" where
  "entry_name w options entry =
     (let ext = extname entry
      in strip_ext w ext
           (replace_first (path_join [cwd options, rootDir options] @ ''/'') entry))"

fun entryMap_reduce ::
  "world \<Rightarrow> RemaxOptions \<Rightarrow> (string \<times> string) list \<Rightarrow> string list \<Rightarrow> error + (string \<times> string) list" where
  "entryMap_reduce w options m [] = Inr m"
| "entryMap_reduce w options m (entry # rest) =
     (case entry_name w options entry of
        Inl e \<Rightarrow> Inl e
      | Inr name \<Rightarrow> entryMap_reduce w options (obj_set m name entry) rest)"

record Prepared =
  prep_entries :: Entries
  prep_entryMap :: "(string \<times> string) list"
  prep_env :: Environment

definition prepare :: "world \<Rightarrow> RemaxOptions \<Rightarrow> Platform \<Rightarrow> error + Prepared" where
  "prepare w options target =
     (case getEntries w options of
        Inl msg \<Rightarrow> Inl (Thrown msg)
      | Inr entries \<Rightarrow>
          bindE (entryMap_reduce w options [] (entries_app entries # entries_pages entries))
            (\<lambda>entryMap.
               Inr \<lparr>prep_entries = entries, prep_entryMap = entryMap,
                    prep_env = getEnvironment w options target\<rparr>))"

subsection \<open>The module's state\<close>

text \<open>
  \<^verbatim>\<open>const config = new Config()\<close> is evaluated once, when the module is loaded, and
  every call of \<^verbatim>\<open>webpackConfig\<close> works on that one builder. The state also counts the
  calls of the user's hook and keeps what \<^verbatim>\<open>console.log\<close> printed. A call returns its
  result, or the error it raised, with the state it leaves behind.
\<close>

record state =
  config :: Config
  hook_calls :: nat
  console :: "Configuration list"

definition new_state :: state where
  "new_state = \<lparr>config = new_Config, hook_calls = 0, console = []\<rparr>"

type_synonym 'a prog = "state \<Rightarrow> (error + 'a) \<times> state"

definition ret :: "'a \<Rightarrow> 'a prog" where
  "ret x s = (Inr x, s)"

definition seq :: "'a prog \<Rightarrow> ('a \<Rightarrow> 'b prog) \<Rightarrow> 'b prog" where
  "seq m f s = (case m s of (Inl e, s') \<Rightarrow> (Inl e, s') | (Inr x, s') \<Rightarrow> f x s')"

definition lift :: "error + 'a \<Rightarrow> 'a prog" where
  "lift r s = (r, s)"

definition modify :: "(Config \<Rightarrow> Config) \<Rightarrow> unit prog" where
  "modify f s = (Inr (), s\<lparr>config := f (config s)\<rparr>)"

text \<open>
  An identifier the module neither imports nor declares is looked up in the global
  scope, and raises a \<^verbatim>\<open>ReferenceError\<close> when it is not there.
\<close>

definition lookup_identifier :: "world \<Rightarrow> string \<Rightarrow> jsval prog" where
  "lookup_identifier w x =
     lift (case globals w x of None \<Rightarrow> Inl (ReferenceError x) | Some v \<Rightarrow> Inr v)"

subsection \<open>\<^verbatim>\<open>webpackConfig\<close> (lines 55 to 217)\<close>

definition style_rx :: regex where
  "style_rx = Regex (CHR 0x5C # ''.(css|less|sass|stylus)$'') ''i''"

definition json_rx :: regex where
  "json_rx = Regex (CHR 0x5C # ''.json$'') []"

definition define_rx :: regex where
  "define_rx = Regex (''remax'' @ [CHR 0x5C] @ ''/esm'' @ [CHR 0x5C] @ ''/createHostComponent.js'') ''i''"

definition images_rx :: regex where
  "images_rx = Regex (CHR 0x5C # ''.(png|jpe?g|gif|svg)$'') ''i''"

text \<open>\<^verbatim>\<open>JSON.stringify({ greeting: 'Hello!' })\<close>.\<close>

definition greeting_json :: string where
  "greeting_json = ''{'' @ [CHR 0x22] @ ''greeting'' @ [CHR 0x22] @ '':'' @ [CHR 0x22] @ ''Hello!'' @ [CHR 0x22] @ ''}''"

text \<open>Lines 58 to 66.\<close>

definition base_settings :: "world \<Rightarrow> RemaxOptions \<Rightarrow> Config \<Rightarrow> Config" where
  "base_settings w options =
     steps
       [config_entry ''index'' (set_add ''src/index.js''),
        (\<lambda>c. c\<lparr>cfg_devtool := Some (if NODE_ENV w = Some ''development''
                                       then Str ''cheap-module-source-map'' else Bool False)\<rparr>),
        (\<lambda>c. c\<lparr>cfg_mode := Some (case NODE_ENV w of
                                      None \<Rightarrow> ''development''
                                    | Some m \<Rightarrow> if m = [] then ''development'' else m)\<rparr>),
        (\<lambda>c. c\<lparr>cfg_context := Some (cwd options)\<rparr>),
        (\<lambda>c. c\<lparr>resolve_extensions := set_merge (extensions w) (resolve_extensions c)\<rparr>),
        alias_merge (alias' w options),
        (\<lambda>c. c\<lparr>output_path := Some (path_join [cwd options, output' options])\<rparr>),
        (\<lambda>c. c\<lparr>output_filename := Some ''[name].js''\<rparr>)]"

text \<open>
  \<^verbatim>\<open>.use(uname).loader(useLoader(ident))\<close> on the rule \<open>rname\<close>, followed by \<open>rest\<close>
  (a call of \<^verbatim>\<open>.options\<close>, or nothing). The use is created before \<^verbatim>\<open>useLoader\<close> runs,
  so it stays in the builder when the loader cannot be resolved.
\<close>

definition use_resolved :: "world \<Rightarrow> string \<Rightarrow> string \<Rightarrow> string \<Rightarrow> (Use \<Rightarrow> Use) \<Rightarrow> unit prog" where
  "use_resolved w rname uname ident rest =
     seq (modify (config_rule rname (rule_use uname id))) (\<lambda>_.
     seq (lift (useLoader w ident)) (\<lambda>l.
     modify (config_rule rname (rule_use uname (steps [loader l, rest])))))"

text \<open>Lines 68 to 79.\<close>

definition rule_createAppOrPageConfig :: "world \<Rightarrow> Entries \<Rightarrow> unit prog" where
  "rule_createAppOrPageConfig w entries =
     seq (modify (config_rule ''createAppOrPageConfig''
            (steps [test (matcher w),
                    include_add (Str (entries_app entries)),
                    include_merge (map Str (entries_pages entries))]))) (\<lambda>_.
     use_resolved w ''createAppOrPageConfig'' ''babel'' ''babel''
       (options' (Obj [(''usePlugins'', Arr [app w (entries_app entries), page w (entries_pages entries)]),
                       (''reactPreset'', Bool False)])))"

text \<open>Lines 81 to 93.\<close>

definition rule_compilation :: "world \<Rightarrow> RemaxOptions \<Rightarrow> unit prog" where
  "rule_compilation w options =
     seq (modify (config_rule ''compilation'' (test (matcher w)))) (\<lambda>_.
     use_resolved w ''compilation'' ''babel'' ''babel''
       (options' (Obj [(''usePlugins'', Arr [nativeComponentsBabelPlugin w options, components w options]),
                       (''reactPreset'', Bool True)])))"

text \<open>
  Lines 96 to 110: the candidate list, whose elements are a rule or \<^verbatim>\<open>false\<close>, and
  \<^verbatim>\<open>.filter(Boolean)\<close>.
\<close>

record PreprocessRule =
  pre_name :: string
  pre_loader :: string
  pre_options :: "jsval option"

definition enabled_rule :: "world \<Rightarrow> string \<Rightarrow> string \<Rightarrow> error + PreprocessRule option" where
  "enabled_rule w pkg name =
     (if style_enabled w pkg
      then bindE (useLoader w name)
             (\<lambda>l. Inr (Some \<lparr>pre_name = name, pre_loader = l, pre_options = None\<rparr>))
      else Inr None)"

definition preprocessCssRules :: "world \<Rightarrow> RemaxOptions \<Rightarrow> error + PreprocessRule list" where
  "preprocessCssRules w options =
     bindE (useLoader w ''postcss'') (\<lambda>postcss.
     bindE (enabled_rule w ''less'' ''less'') (\<lambda>less.
     bindE (enabled_rule w ''node-sass'' ''sass'') (\<lambda>sass.
     bindE (enabled_rule w ''stylus'' ''stylus'') (\<lambda>stylus.
       Inr (List.map_filter id
         [Some \<lparr>pre_name = ''postcss'', pre_loader = postcss,
                pre_options = Some (Obj [(''config'', Obj [(''path'', resolvePostcssConfig w options)]),
                                         (''plugins'', Arr (filter truthy [pxToUnits w]))])\<rparr>,
          less, sass, stylus])))))"

text \<open>The two \<^verbatim>\<open>forEach\<close> loops (lines 127 to 133 and 153 to 159).\<close>

definition chain_preprocess :: "string \<Rightarrow> PreprocessRule list \<Rightarrow> Config \<Rightarrow> Config" where
  "chain_preprocess rname rules =
     steps (map (\<lambda>r. config_rule rname
                        (rule_use (pre_name r)
                           (steps [loader (pre_loader r),
                                   options' (case pre_options r of
                                               None \<Rightarrow> Obj []
                                             | Some v \<Rightarrow> if truthy v then v else Obj [])])))
                rules)"

text \<open>Lines 112 to 133.\<close>

definition rule_styles :: "world \<Rightarrow> CssModuleConfig \<Rightarrow> PreprocessRule list \<Rightarrow> unit prog" where
  "rule_styles w cssModuleConfig pre =
     seq (modify (config_rule ''styles''
            (steps [test style_rx,
                    exclude_add (if css_enabled cssModuleConfig
                                 then Rx (css_regExp cssModuleConfig) else Str []),
                    rule_use ''cssExtract'' (loader (MiniCssExtractPlugin_loader w))]))) (\<lambda>_.
     seq (use_resolved w ''styles'' ''css'' ''css''
            (options' (Obj [(''importLoaders'', Num (int (length pre)))]))) (\<lambda>_.
     modify (chain_preprocess ''styles'' pre)))"

text \<open>Lines 136 to 160.\<close>

definition rule_cssModulesStyles :: "world \<Rightarrow> CssModuleConfig \<Rightarrow> PreprocessRule list \<Rightarrow> unit prog" where
  "rule_cssModulesStyles w cssModuleConfig pre =
     (if css_enabled cssModuleConfig then
        seq (modify (config_rule ''cssModulesStyles''
               (steps [test (css_regExp cssModuleConfig),
                       include_add (Rx (css_regExp cssModuleConfig)),
                       rule_use (MiniCssExtractPlugin_loader w)
                         (loader (MiniCssExtractPlugin_loader w))]))) (\<lambda>_.
        seq (use_resolved w ''cssModulesStyles'' ''css'' ''css''
               (options' (Obj [(''importLoaders'', Num (int (length pre))),
                               (''modules'', Bool True)]))) (\<lambda>_.
        modify (chain_preprocess ''cssModulesStyles'' pre)))
      else ret ())"

text \<open>Lines 162 to 184: four rules with a matcher and one loader each.\<close>

definition simple_rule :: "world \<Rightarrow> string \<Rightarrow> regex \<Rightarrow> string \<Rightarrow> string \<Rightarrow> unit prog" where
  "simple_rule w rname rx uname ident =
     seq (modify (config_rule rname (test rx))) (\<lambda>_.
     use_resolved w rname uname ident id)"

text \<open>Lines 56 to 184: \<^verbatim>\<open>prepare\<close>, the settings and the module rules.\<close>

definition configure :: "world \<Rightarrow> RemaxOptions \<Rightarrow> Platform \<Rightarrow> Prepared prog" where
  "configure w options target =
     seq (lift (prepare w options target)) (\<lambda>p.
     seq (modify (base_settings w options)) (\<lambda>_.
     seq (rule_createAppOrPageConfig w (prep_entries p)) (\<lambda>_.
     seq (rule_compilation w options) (\<lambda>_.
     seq (lift (preprocessCssRules w options)) (\<lambda>pre.
     seq (rule_styles w (getCssModuleConfig w (cssModules options)) pre) (\<lambda>_.
     seq (rule_cssModulesStyles w (getCssModuleConfig w (cssModules options)) pre) (\<lambda>_.
     seq (simple_rule w ''json'' json_rx ''json'' ''json'') (\<lambda>_.
     seq (simple_rule w ''remaxDefineVariables'' define_rx ''remax-define'' ''remax-define'') (\<lambda>_.
     seq (simple_rule w ''images'' images_rx ''file'' ''file'') (\<lambda>_.
     seq (simple_rule w ''resolvePlatformFiles'' (matcher w) ''resolve-platform'' ''resolve-platform'') (\<lambda>_.
     ret p)))))))))))"

text \<open>
  Lines 186 to 208. \<^verbatim>\<open>config.plugin(name)\<close> is evaluated before the arguments of
  \<^verbatim>\<open>.use\<close>: the plugin is in the builder, without a value, when an argument raises.
\<close>

definition register_plugins :: "world \<Rightarrow> RemaxOptions \<Rightarrow> Environment \<Rightarrow> unit prog" where
  "register_plugins w options env =
     seq (modify (config_plugin ''virtualModule'' id)) (\<lambda>_.
     seq (lookup_identifier w ''VirtualModulePlugin'') (\<lambda>virtualModulePlugin.
     seq (modify (steps
            [config_plugin ''virtualModule''
               (plugin_use virtualModulePlugin
                  [Obj [(''moduleName'', Str ''src/index.js''), (''contents'', Str greeting_json)]]),
             (if progress options
              then config_plugin ''progress'' (plugin_use (New ''ProgressPlugin'' []) [])
              else id),
             config_plugin ''define'' (plugin_use (New ''DefinePlugin'' [Obj (env_stringified env)]) []),
             config_plugin ''cssExtract''
               (plugin_use (New ''MiniCssExtractPlugin'' [Obj [(''filename'', Str ''[name]'')]]) []),
             config_plugin ''optimizeEntries'' id])) (\<lambda>_.
     seq (lookup_identifier w ''meta'') (\<lambda>meta.
     modify (steps
            [config_plugin ''optimizeEntries'' (plugin_use (OptimizeEntries w meta) []),
             config_plugin ''nativeFiles'' (plugin_use (NativeFiles w options) []),
             (if NODE_ENV w = Some ''production''
              then config_plugin ''clean'' (plugin_use (New ''CleanWebpackPlugin'' []) [])
              else id)])))))"

text \<open>Lines 210 to 212.\<close>

definition run_hook :: "hook \<Rightarrow> unit prog" where
  "run_hook h s =
     (case h of
        NotCallable \<Rightarrow> (Inr (), s)
      | Callable f \<Rightarrow>
          (case f (config s) of
             (r, c) \<Rightarrow> (r, s\<lparr>config := c, hook_calls := Suc (hook_calls s)\<rparr>)))"

text \<open>Line 214.\<close>

definition console_log :: "world \<Rightarrow> unit prog" where
  "console_log w s =
     (case toConfig (require_module w) (config s) of
        Inl e \<Rightarrow> (Inl e, s)
      | Inr cfg \<Rightarrow> (Inr (), s\<lparr>console := console s @ [cfg]\<rparr>))"

definition webpackConfig :: "world \<Rightarrow> RemaxOptions \<Rightarrow> Platform \<Rightarrow> Configuration prog" where
  "webpackConfig w options target =
     seq (configure w options target) (\<lambda>p.
     seq (register_plugins w options (prep_env p)) (\<lambda>_.
     seq (run_hook (configWebpack options)) (\<lambda>_.
     seq (console_log w) (\<lambda>_.
     (\<lambda>s. (toConfig (require_module w) (config s), s))))))"

subsection \<open>How the bundler reads a rule\<close>

text \<open>
  webpack matches a resource path against a rule's \<^verbatim>\<open>test\<close>, \<^verbatim>\<open>include\<close> and
  \<^verbatim>\<open>exclude\<close>: a regular expression matches the paths it tests true on, a string
  matches the paths that start with it, a list matches when one of its elements does. The
  rule applies when \<^verbatim>\<open>test\<close> and \<^verbatim>\<open>include\<close> match and \<^verbatim>\<open>exclude\<close> does not. The
  expression of the styles rule is read here; the expressions that collaborators supply
  are read by \<open>regexp_test\<close>.
\<close>

definition lower :: "char \<Rightarrow> char" where
  "lower c =
     (let n = (of_char c :: nat) in if 65 \<le> n \<and> n \<le> 90 then char_of (n + 32) else c)"

definition style_file :: "string \<Rightarrow> bool" where
  "style_file s =
     (let t = map lower s
      in suffix ''.css'' t \<or> suffix ''.less'' t \<or> suffix ''.sass'' t \<or> suffix ''.stylus'' t)"

definition RegExp_test :: "world \<Rightarrow> regex \<Rightarrow> string \<Rightarrow> bool" where
  "RegExp_test w r s = (if r = style_rx then style_file s else regexp_test w r s)"

fun condition :: "world \<Rightarrow> jsval \<Rightarrow> string \<Rightarrow> bool" where
  "condition w (Str p) s = prefix p s"
| "condition w (Rx r) s = RegExp_test w r s"
| "condition w _ s = False"

definition rule_matches :: "world \<Rightarrow> RuleConfig \<Rightarrow> string \<Rightarrow> bool" where
  "rule_matches w r s =
     ((case rc_test r of None \<Rightarrow> True | Some t \<Rightarrow> RegExp_test w t s) \<and>
      (rc_include r = [] \<or> list_ex (\<lambda>c. condition w c s) (rc_include r)) \<and>
      \<not> list_ex (\<lambda>c. condition w c s) (rc_exclude r))"

text \<open>The rule of a configuration with a given name.\<close>

definition rule_named :: "string \<Rightarrow> RuleConfig list \<Rightarrow> RuleConfig option" where
  "rule_named name rs = find (\<lambda>r. rc_name r = name) rs"

subsection \<open>A project to run the definitions on\<close>

text \<open>
  A project at \<^verbatim>\<open>/proj\<close> with sources in \<^verbatim>\<open>src\<close>: an app, two pages, less
  installed, no global binding. The override of the babel loader exists, the probe for
  the override of the less loader raises.
\<close>

fun camel :: "bool \<Rightarrow> string \<Rightarrow> string" where
  "camel up [] = []"
| "camel up (c # cs) =
     (if c = CHR ''-'' then camel True cs
      else (if up \<and> 97 \<le> (of_char c :: nat) \<and> (of_char c :: nat) \<le> 122
            then char_of ((of_char c :: nat) - 32) else c) # camel False cs)"

definition module_rx :: regex where
  "module_rx = Regex (CHR 0x5C # ''.module'' @ CHR 0x5C # ''.(css|less|sass|stylus)$'') []"

definition example_options :: RemaxOptions where
  "example_options =
     \<lparr>cwd = ''/proj'', rootDir = ''src'', output' = ''dist'', cssModules = Bool True,
      progress = False, configWebpack = NotCallable\<rparr>"

definition example_world :: world where
  "example_world =
     \<lparr>dirname = ''/remax/lib/web'',
      NODE_ENV = Some ''development'',
      globals = (\<lambda>x. None),
      camelCase = camel False,
      existsSync = (\<lambda>p. if p = ''/remax/lib/web/webpack/loaders/babel.js'' then Some True
                         else if p = ''/remax/lib/web/webpack/loaders/less.js'' then None
                         else Some False),
      require_resolve = (\<lambda>m. Some (''/node_modules/'' @ m)),
      require_module = (\<lambda>m. None),
      regexp_replace = (\<lambda>src s. None),
      regexp_test = (\<lambda>r s. r = module_rx \<and>
                        (suffix ''.module.css'' s \<or> suffix ''.module.less'' s \<or>
                         suffix ''.module.sass'' s \<or> suffix ''.module.stylus'' s)),
      getEntries = (\<lambda>opts. Inr \<lparr>entries_app = ''/proj/src/app.js'',
                                 entries_pages = [''/proj/src/pages/index.js'',
                                                  ''/proj/src/pages/about.tsx'']\<rparr>),
      getEnvironment = (\<lambda>opts t. \<lparr>env_raw = [(''REMAX_PLATFORM'', Str t)],
                                   env_stringified = [(''process.env.REMAX_PLATFORM'',
                                                       Str ([CHR 0x22] @ t @ [CHR 0x22]))]\<rparr>),
      extensions = [''.js'', ''.jsx'', ''.ts'', ''.tsx''],
      matcher = Regex (CHR 0x5C # ''.(jsx?|tsx?)$'') [],
      alias' = (\<lambda>opts. [(''@'', ''/proj/src'')]),
      app = (\<lambda>a. Fn ''app''),
      page = (\<lambda>ps. Fn ''page''),
      nativeComponentsBabelPlugin = (\<lambda>opts. Fn ''nativeComponents''),
      components = (\<lambda>opts. Fn ''components''),
      getCssModuleConfig = (\<lambda>v. \<lparr>css_enabled = truthy v, css_regExp = module_rx\<rparr>),
      resolvePostcssConfig = (\<lambda>opts. Str ''/proj''),
      style_enabled = (\<lambda>pkg. pkg = ''less''),
      pxToUnits = Fn ''pxToUnits'',
      MiniCssExtractPlugin_loader = ''/node_modules/mini-css-extract-plugin/dist/loader.js'',
      OptimizeEntries = (\<lambda>m. New ''OptimizeEntries'' [m]),
      NativeFiles = (\<lambda>opts. New ''NativeFiles'' [])\<rparr>"

text \<open>The same project, with the two identifiers the file leaves free bound globally.\<close>

definition bound_world :: world where
  "bound_world =
     example_world\<lparr>globals :=
       [''VirtualModulePlugin'' \<mapsto> Fn ''VirtualModulePlugin'', ''meta'' \<mapsto> Obj []]\<rparr>"

text \<open>
  Two variants of the project: one whose only page \<^verbatim>\<open>app.ts\<close> lies beside the app
  \<^verbatim>\<open>app.js\<close>, one whose only page is the file \<^verbatim>\<open>__proto__.js\<close>.
\<close>

definition colliding_world :: world where
  "colliding_world =
     example_world\<lparr>getEntries :=
       (\<lambda>opts. Inr \<lparr>entries_app = ''/proj/src/app.js'', entries_pages = [''/proj/src/app.ts'']\<rparr>)\<rparr>"


subsection \<open>Notions of the specification\<close>

text \<open>
  The candidate list of preprocessors in its fixed order: postcss, then less, sass and
  stylus, each when \<^verbatim>\<open>styleConfig.enabled\<close> reports its package.
\<close>

definition candidates :: "world \<Rightarrow> string list" where
  "candidates w =
     ''postcss'' #
     (if style_enabled w ''less'' then [''less''] else []) @
     (if style_enabled w ''node-sass'' then [''sass''] else []) @
     (if style_enabled w ''stylus'' then [''stylus''] else [])"

text \<open>Every transformer a call asks for can be resolved.\<close>

definition transformers :: "world \<Rightarrow> string list" where
  "transformers w =
     ''babel'' # candidates w @ [''css'', ''json'', ''remax-define'', ''file'', ''resolve-platform'']"

definition resolvable :: "world \<Rightarrow> bool" where
  "resolvable w = list_all (\<lambda>i. \<not> isl (useLoader w i)) (transformers w)"



text \<open>
  The callback \<^verbatim>\<open>config => { config.plugin(name).use(v, args) }\<close>, and the names of the
  plugins a call registers by itself, in the order of the source.
\<close>

definition marker_hook :: "string \<Rightarrow> jsval \<Rightarrow> jsval list \<Rightarrow> Config \<Rightarrow> (error + unit) \<times> Config" where
  "marker_hook name v args c = (Inr (), config_plugin name (plugin_use v args) c)"


text \<open>
  The builder after the first call of \<^verbatim>\<open>webpackConfig\<close> in a process, whether the call
  returned or raised. When the call returns a configuration, it is the finalized form of
  this builder.
\<close>

definition builder_after :: "world \<Rightarrow> RemaxOptions \<Rightarrow> Platform \<Rightarrow> Config" where
  "builder_after w options target = config (snd (webpackConfig w options target new_state))"

text \<open>
  A program keeps a relation \<open>R\<close> when the builder it leaves is related to the builder
  it found, whatever its outcome.
\<close>

definition keeps :: "(Config \<Rightarrow> Config \<Rightarrow> bool) \<Rightarrow> 'a prog \<Rightarrow> bool" where
  "keeps R m = (\<forall>s. R (config s) (config (snd (m s))))"





text \<open>The example project with CSS modules switched off.\<close>

definition plain_options :: RemaxOptions where
  "plain_options = example_options\<lparr>cssModules := Bool False\<rparr>"

text \<open>The example project with a callback that adds the plugin \<^verbatim>\<open>marker\<close>.\<close>

definition marker_options :: RemaxOptions where
  "marker_options =
     example_options\<lparr>configWebpack := Callable (marker_hook ''marker'' (Fn ''Marker'') [])\<rparr>"

text \<open>
  What lines 186 to 208 make of the builder when the two free identifiers are bound to
  \<open>v\<close> and \<open>m\<close>.
\<close>

definition registered ::
  "world \<Rightarrow> RemaxOptions \<Rightarrow> Environment \<Rightarrow> jsval \<Rightarrow> jsval \<Rightarrow> Config \<Rightarrow> Config" where
  "registered w options env v m =
     steps
       [config_plugin ''virtualModule''
          (plugin_use v [Obj [(''moduleName'', Str ''src/index.js''), (''contents'', Str greeting_json)]]),
        (if progress options
         then config_plugin ''progress'' (plugin_use (New ''ProgressPlugin'' []) [])
         else id),
        config_plugin ''define'' (plugin_use (New ''DefinePlugin'' [Obj (env_stringified env)]) []),
        config_plugin ''cssExtract''
          (plugin_use (New ''MiniCssExtractPlugin'' [Obj [(''filename'', Str ''[name]'')]]) []),
        config_plugin ''optimizeEntries'' (plugin_use (OptimizeEntries w m) []),
        config_plugin ''nativeFiles'' (plugin_use (NativeFiles w options) []),
        (if NODE_ENV w = Some ''production''
         then config_plugin ''clean'' (plugin_use (New ''CleanWebpackPlugin'' []) [])
         else id)]"

text \<open>
  A value \<^verbatim>\<open>Plugin.toConfig\<close> can make a plugin of, and a builder all of whose plugins
  are such values: \<^verbatim>\<open>toConfig\<close> raises on no other builder.
\<close>

definition instantiable :: "world \<Rightarrow> jsval \<Rightarrow> bool" where
  "instantiable w v =
     (\<not> isl (Plugin_toConfig (require_module w) ([], \<lparr>plugin_ctor = Some v, plugin_args = []\<rparr>)))"

definition finalizable :: "world \<Rightarrow> Config \<Rightarrow> bool" where
  "finalizable w c =
     list_all (\<lambda>np. case plugin_ctor (snd np) of None \<Rightarrow> False | Some v \<Rightarrow> instantiable w v)
       (plugins c)"





section \<open>Properties\<close>

subsection \<open>Running a program\<close>

lemma seq_ret [simp]: "seq (ret x) f = f x"
  by (rule ext) (simp add: seq_def ret_def)

lemma seq_lift_Inr [simp]: "seq (lift (Inr x)) f = f x"
  by (rule ext) (simp add: seq_def lift_def)

lemma seq_lift_Inl [simp]: "seq (lift (Inl e)) f s = (Inl e, s)"
  by (simp add: seq_def lift_def)

lemma seq_modify [simp]: "seq (modify g) f s = f () (s\<lparr>config := g (config s)\<rparr>)"
  by (simp add: seq_def modify_def)

lemma seq_assoc: "seq (seq m f) g = seq m (\<lambda>x. seq (f x) g)"
  by (rule ext) (simp add: seq_def split: prod.splits sum.splits)

lemma seq_Inl: "m s = (Inl e, s1) \<Longrightarrow> seq m f s = (Inl e, s1)"
  by (simp add: seq_def)

lemma seq_Inr: "m s = (Inr x, s1) \<Longrightarrow> seq m f s = f x s1"
  by (simp add: seq_def)


subsection \<open>The transform resolver\<close>

text \<open>
  C6. \<^verbatim>\<open>useLoader(id)\<close> returns the path of the local override, the file named after
  the camel-cased id in the loaders directory, when that file exists. When the file does
  not exist, and also when the probe for it raises, the result is that of
  \<^verbatim>\<open>require.resolve(id + '-loader')\<close>: the default binding.
\<close>

theorem useLoader_precedence:
  "(existsSync w (loaderPath w ident) = Some True \<longrightarrow>
      useLoader w ident = Inr (loaderPath w ident)) \<and>
   (existsSync w (loaderPath w ident) = Some False \<or> existsSync w (loaderPath w ident) = None \<longrightarrow>
      useLoader w ident =
        (case require_resolve w (ident @ ''-loader'') of
           Some p \<Rightarrow> Inr p
         | None \<Rightarrow> Inl (ModuleNotFound (ident @ ''-loader''))))"
  by (auto simp: useLoader_def)

theorem useLoader_precedence_witness:
  "existsSync example_world (loaderPath example_world ''babel'') = Some True \<and>
   useLoader example_world ''babel'' = Inr ''/remax/lib/web/webpack/loaders/babel.js'' \<and>
   existsSync example_world (loaderPath example_world ''css'') = Some False \<and>
   useLoader example_world ''css'' = Inr ''/node_modules/css-loader'' \<and>
   existsSync example_world (loaderPath example_world ''less'') = None \<and>
   useLoader example_world ''less'' = Inr ''/node_modules/less-loader''"
proof -
  have babel: "loaderPath example_world ''babel'' = ''/remax/lib/web/webpack/loaders/babel.js''"
    by code_simp
  have exists: "existsSync example_world (loaderPath example_world ''babel'') = Some True"
    by code_simp
  have absent: "existsSync example_world (loaderPath example_world ''css'') = Some False"
    by code_simp
  have failed: "existsSync example_world (loaderPath example_world ''less'') = None"
    by code_simp
  have css: "require_resolve example_world (''css'' @ ''-loader'') = Some ''/node_modules/css-loader''"
    by code_simp
  have less: "require_resolve example_world (''less'' @ ''-loader'') = Some ''/node_modules/less-loader''"
    by code_simp
  from useLoader_precedence [of example_world "''babel''"] exists babel
  have 1: "useLoader example_world ''babel'' = Inr ''/remax/lib/web/webpack/loaders/babel.js''"
    by simp
  from useLoader_precedence [of example_world "''css''"] absent css
  have 2: "useLoader example_world ''css'' = Inr ''/node_modules/css-loader''"
    by simp
  from useLoader_precedence [of example_world "''less''"] failed less
  have 3: "useLoader example_world ''less'' = Inr ''/node_modules/less-loader''"
    by simp
  from exists absent failed 1 2 3 show ?thesis by blast
qed

subsection \<open>The two free identifiers\<close>





subsection \<open>Entry names and the entry map\<close>













lemma entryMap_reduce_names:
  assumes "list_all (\<lambda>e. entry_name w options e = Inr (nm e)) es"
  shows "entryMap_reduce w options m es = Inr (foldl (\<lambda>acc e. obj_set acc (nm e) e) m es)"
  using assms by (induction es arbitrary: m) auto

lemma map_of_obj_set:
  "n \<noteq> ''__proto__'' \<Longrightarrow> map_of (obj_set m k v) n = (if n = k then Some v else map_of m n)"
  by (auto simp: obj_set_def update_conv')

lemma find_app: "find P (xs @ ys) = (case find P xs of None \<Rightarrow> find P ys | Some x \<Rightarrow> Some x)"
  by (induction xs) auto

lemma map_of_foldl_obj_set:
  assumes "n \<noteq> ''__proto__''"
  shows "map_of (foldl (\<lambda>acc e. obj_set acc (nm e) e) m es) n =
         (case find (\<lambda>e. nm e = n) (rev es) of Some e \<Rightarrow> Some e | None \<Rightarrow> map_of m n)"
  using assms
proof (induction es arbitrary: m)
  case Nil
  then show ?case by simp
next
  case (Cons e es)
  then show ?case
    by (auto simp: find_app map_of_obj_set split: option.splits)
qed



lemma prepare_names:
  assumes "getEntries w options = Inr entries"
    and "list_all (\<lambda>e. entry_name w options e = Inr (nm e)) (entries_app entries # entries_pages entries)"
  shows "prepare w options target =
           Inr \<lparr>prep_entries = entries,
                prep_entryMap = foldl (\<lambda>acc e. obj_set acc (nm e) e) []
                                  (entries_app entries # entries_pages entries),
                prep_env = getEnvironment w options target\<rparr>"
  using assms(1) entryMap_reduce_names [OF assms(2), of "[]"]
  by (simp add: prepare_def bindE_def)

text \<open>
  C3, as the code has it. \<^verbatim>\<open>prepare\<close> has no check for colliding names and raises
  nothing for them: when \<^verbatim>\<open>getEntries\<close> returns and the name of every entry can be
  computed, \<^verbatim>\<open>prepare\<close> returns, and its entry map holds under each name (other than
  \<^verbatim>\<open>__proto__\<close>) the last entry of \<^verbatim>\<open>[app, ...pages]\<close> that has this name.
\<close>

theorem prepare_last_write_wins:
  assumes "getEntries w options = Inr entries"
    and "list_all (\<lambda>e. \<not> isl (entry_name w options e)) (entries_app entries # entries_pages entries)"
  shows "\<exists>p. prepare w options target = Inr p \<and>
             (\<forall>n. n \<noteq> ''__proto__'' \<longrightarrow>
                map_of (prep_entryMap p) n =
                  find (\<lambda>e. entry_name w options e = Inr n)
                    (rev (entries_app entries # entries_pages entries)))"
proof -
  let ?es = "entries_app entries # entries_pages entries"
  let ?nm = "\<lambda>e. projr (entry_name w options e)"
  from assms(2) have names: "list_all (\<lambda>e. entry_name w options e = Inr (?nm e)) ?es"
    by (auto simp: list_all_iff)
  have same: "find (\<lambda>e. ?nm e = n) (rev ?es) = find (\<lambda>e. entry_name w options e = Inr n) (rev ?es)" for n
  proof (rule find_cong [OF refl])
    fix e assume "e \<in> set (rev ?es)"
    with names have "entry_name w options e = Inr (?nm e)" by (auto simp: list_all_iff)
    then show "(?nm e = n) = (entry_name w options e = Inr n)" by auto
  qed
  have "map_of (foldl (\<lambda>acc e. obj_set acc (?nm e) e) [] ?es) n =
        find (\<lambda>e. entry_name w options e = Inr n) (rev ?es)" if "n \<noteq> ''__proto__''" for n
    using map_of_foldl_obj_set [OF that, of ?nm "[]" ?es] same [of n]
    by (simp split: option.splits)
  with prepare_names [OF assms(1) names, of target] show ?thesis by simp
qed




theorem prepare_last_write_wins_witness:
  "\<exists>p. prepare colliding_world example_options ''web'' = Inr p \<and>
       map_of (prep_entryMap p) ''app'' = Some ''/proj/src/app.ts''"
proof -
  let ?entries = "\<lparr>entries_app = ''/proj/src/app.js'', entries_pages = [''/proj/src/app.ts'']\<rparr>"
  have g: "getEntries colliding_world example_options = Inr ?entries"
    by (simp add: colliding_world_def)
  have n: "entry_name colliding_world example_options ''/proj/src/app.js'' = Inr ''app''"
    "entry_name colliding_world example_options ''/proj/src/app.ts'' = Inr ''app''"
    by code_simp+
  from prepare_last_write_wins [OF g, of "''web''"] n
  show ?thesis by auto
qed

text \<open>
  C3 fails as stated: \<^verbatim>\<open>/proj/src/app.js\<close> and \<^verbatim>\<open>/proj/src/app.ts\<close> are distinct
  files with the same name \<^verbatim>\<open>app\<close>; \<^verbatim>\<open>prepare\<close> returns, and the page has replaced
  the app in the entry map.
\<close>

theorem colliding_entries_merge:
  "entry_name colliding_world example_options ''/proj/src/app.js'' = Inr ''app'' \<and>
   entry_name colliding_world example_options ''/proj/src/app.ts'' = Inr ''app'' \<and>
   map_sum id prep_entryMap (prepare colliding_world example_options ''web'') =
     Inr [(''app'', ''/proj/src/app.ts'')]"
  by code_simp


subsection \<open>Steps of the builder\<close>

lemma steps_Nil [simp]: "steps [] = (\<lambda>x. x)"
  by (rule ext) (simp add: steps_def)

lemma steps_Cons [simp]: "steps (f # fs) = (\<lambda>x. steps fs (f x))"
  by (rule ext) (simp add: steps_def)

lemma steps_append: "steps (fs @ gs) x = steps gs (steps fs x)"
  unfolding steps_def by simp



lemma at_key_twice: "at_key k d f (at_key k d g m) = at_key k d (f \<circ> g) m"
  by (simp add: at_key_def update_conv')

lemma at_key_fresh: "k \<notin> fst ` set m \<Longrightarrow> at_key k d f m = m @ [(k, f d)]"
proof -
  assume a: "k \<notin> fst ` set m"
  then have "map_of m k = None" by (simp add: map_of_eq_None_iff)
  moreover have "AList.update k v m = m @ [(k, v)]" for v
    using a by (induction m) auto
  ultimately show ?thesis by (simp add: at_key_def)
qed

lemma config_rule_twice: "config_rule n f (config_rule n g c) = config_rule n (f \<circ> g) c"
  by (simp add: config_rule_def at_key_twice)

lemma rule_use_twice: "rule_use n f (rule_use n g r) = rule_use n (f \<circ> g) r"
  by (simp add: rule_use_def at_key_twice)

lemma config_plugin_twice: "config_plugin n f (config_plugin n g c) = config_plugin n (f \<circ> g) c"
  by (simp add: config_plugin_def at_key_twice)

lemma modify_modify: "seq (modify f) (\<lambda>_. modify g) = modify (g \<circ> f)"
  by (rule ext) (simp add: modify_def)

lemma seq_modify_modify: "seq (modify f) (\<lambda>_. seq (modify g) h) = seq (modify (g \<circ> f)) h"
  by (rule ext) simp

subsection \<open>The rules when every loader resolves\<close>

lemma use_resolved_Inr:
  assumes "useLoader w i = Inr l"
  shows "use_resolved w rn un i rest = modify (config_rule rn (rule_use un (\<lambda>u. rest (loader l u))))"
proof -
  have "config_rule rn (rule_use un (steps [loader l, rest])) \<circ> config_rule rn (rule_use un id) =
        config_rule rn (rule_use un (\<lambda>u. rest (loader l u)))"
    by (rule ext) (simp add: config_rule_twice comp_def rule_use_twice)
  then show ?thesis
    by (simp add: use_resolved_def assms modify_modify)
qed

lemma simple_rule_Inr:
  assumes "useLoader w i = Inr l"
  shows "simple_rule w rn rx un i = modify (config_rule rn (\<lambda>r. rule_use un (loader l) (test rx r)))"
proof -
  have "config_rule rn (rule_use un (\<lambda>u. id (loader l u))) \<circ> config_rule rn (test rx) =
        config_rule rn (\<lambda>r. rule_use un (loader l) (test rx r))"
    by (rule ext) (simp add: config_rule_twice comp_def)
  then show ?thesis
    by (simp add: simple_rule_def use_resolved_Inr [OF assms] modify_modify)
qed

lemma steps_config_rule:
  "steps (map (\<lambda>r. config_rule rn (G r)) pre) (config_rule rn f c) =
   config_rule rn (\<lambda>x. steps (map G pre) (f x)) c"
proof (induction pre arbitrary: f)
  case Nil
  then show ?case by simp
next
  case (Cons r pre)
  have "steps (map (\<lambda>r. config_rule rn (G r)) pre) (config_rule rn (\<lambda>x. G r (f x)) c) =
        config_rule rn (\<lambda>x. steps (map G pre) (G r (f x))) c"
    by (rule Cons.IH)
  then show ?case by (simp add: config_rule_twice comp_def)
qed

lemma chain_preprocess_config_rule:
  "chain_preprocess rn pre (config_rule rn f c) =
   config_rule rn
     (\<lambda>x. steps (map (\<lambda>r. rule_use (pre_name r)
                    (steps [loader (pre_loader r),
                            options' (case pre_options r of
                                        None \<Rightarrow> Obj []
                                      | Some v \<Rightarrow> if truthy v then v else Obj [])])) pre) (f x)) c"
  unfolding chain_preprocess_def by (rule steps_config_rule)

lemma steps_rule_use_fresh:
  assumes "distinct (map fst kfs)" and "fst ` set kfs \<inter> fst ` set (rule_uses r) = {}"
  shows "steps (map (\<lambda>kf. rule_use (fst kf) (snd kf)) kfs) r =
         r\<lparr>rule_uses := rule_uses r @ map (\<lambda>kf. (fst kf, snd kf new_Use)) kfs\<rparr>"
  using assms
proof (induction kfs arbitrary: r)
  case Nil
  then show ?case by simp
next
  case (Cons kf kfs)
  from Cons.prems have 1: "rule_use (fst kf) (snd kf) r = r\<lparr>rule_uses := rule_uses r @ [(fst kf, snd kf new_Use)]\<rparr>"
    by (simp add: rule_use_def at_key_fresh)
  have "steps (map (\<lambda>kf. rule_use (fst kf) (snd kf)) kfs) (r\<lparr>rule_uses := rule_uses r @ [(fst kf, snd kf new_Use)]\<rparr>) =
        (r\<lparr>rule_uses := rule_uses r @ [(fst kf, snd kf new_Use)]\<rparr>)
          \<lparr>rule_uses := rule_uses (r\<lparr>rule_uses := rule_uses r @ [(fst kf, snd kf new_Use)]\<rparr>) @ map (\<lambda>kf. (fst kf, snd kf new_Use)) kfs\<rparr>"
    using Cons.prems by (intro Cons.IH) auto
  with 1 show ?case by simp
qed


lemma rule_createAppOrPageConfig_Inr:
  assumes "useLoader w ''babel'' = Inr l"
  shows "\<exists>F. rule_createAppOrPageConfig w entries = modify (config_rule ''createAppOrPageConfig'' F)"
proof -
  have "seq (modify (config_rule n f)) (\<lambda>_. modify (config_rule n g)) =
        modify (config_rule n (\<lambda>r. g (f r)))" for n f g
    by (simp add: modify_modify comp_def config_rule_twice)
  then show ?thesis
    unfolding rule_createAppOrPageConfig_def use_resolved_Inr [OF assms] by blast
qed

lemma rule_compilation_Inr:
  assumes "useLoader w ''babel'' = Inr l"
  shows "\<exists>F. rule_compilation w options = modify (config_rule ''compilation'' F)"
proof -
  have "seq (modify (config_rule n f)) (\<lambda>_. modify (config_rule n g)) =
        modify (config_rule n (\<lambda>r. g (f r)))" for n f g
    by (simp add: modify_modify comp_def config_rule_twice)
  then show ?thesis
    unfolding rule_compilation_def use_resolved_Inr [OF assms] by blast
qed

lemma simple_rule_exists:
  assumes "useLoader w i = Inr l"
  shows "\<exists>F. simple_rule w rn rx un i = modify (config_rule rn F)"
  using simple_rule_Inr [OF assms] by blast

lemma rule_styles_Inr:
  assumes "useLoader w ''css'' = Inr l"
  shows "rule_styles w cm pre =
         modify (config_rule ''styles''
           (\<lambda>r. steps (map (\<lambda>q. rule_use (pre_name q)
                               (steps [loader (pre_loader q),
                                       options' (case pre_options q of
                                                   None \<Rightarrow> Obj []
                                                 | Some v \<Rightarrow> if truthy v then v else Obj [])])) pre)
                  (rule_use ''css''
                     (\<lambda>u. options' (Obj [(''importLoaders'', Num (int (length pre)))]) (loader l u))
                     (rule_use ''cssExtract'' (loader (MiniCssExtractPlugin_loader w))
                        (exclude_add (if css_enabled cm then Rx (css_regExp cm) else Str [])
                           (test style_rx r))))))"
  unfolding rule_styles_def use_resolved_Inr [OF assms]
  by (rule ext) (simp add: modify_def config_rule_twice comp_def chain_preprocess_config_rule)

lemma steps_rule_use_frame:
  "rule_test (steps (map (\<lambda>q. rule_use (k q) (g q)) qs) r) = rule_test r \<and>
   rule_include (steps (map (\<lambda>q. rule_use (k q) (g q)) qs) r) = rule_include r \<and>
   rule_exclude (steps (map (\<lambda>q. rule_use (k q) (g q)) qs) r) = rule_exclude r"
  by (induction qs arbitrary: r) (simp_all add: rule_use_def)

lemma rule_cssModulesStyles_Inr:
  assumes "useLoader w ''css'' = Inr l" and "css_enabled cm"
  shows "\<exists>F. rule_cssModulesStyles w cm pre = modify (config_rule ''cssModulesStyles'' F) \<and>
             (\<forall>r. rule_test (F r) = Some (css_regExp cm) \<and>
                  rule_include (F r) = set_add (Rx (css_regExp cm)) (rule_include r) \<and>
                  rule_exclude (F r) = rule_exclude r)"
proof -
  let ?L = "MiniCssExtractPlugin_loader w"
  let ?F = "\<lambda>r. steps (map (\<lambda>q. rule_use (pre_name q)
                               (steps [loader (pre_loader q),
                                       options' (case pre_options q of
                                                   None \<Rightarrow> Obj []
                                                 | Some v \<Rightarrow> if truthy v then v else Obj [])])) pre)
                  (rule_use ''css''
                     (\<lambda>u. options' (Obj [(''importLoaders'', Num (int (length pre))), (''modules'', Bool True)]) (loader l u))
                     (rule_use ?L (loader ?L)
                        (include_add (Rx (css_regExp cm)) (test (css_regExp cm) r))))"
  have "rule_cssModulesStyles w cm pre = modify (config_rule ''cssModulesStyles'' ?F)"
    unfolding rule_cssModulesStyles_def use_resolved_Inr [OF assms(1)]
    by (rule ext) (simp add: assms(2) modify_def config_rule_twice comp_def chain_preprocess_config_rule)
  moreover have "rule_test (?F r) = Some (css_regExp cm) \<and>
                 rule_include (?F r) = set_add (Rx (css_regExp cm)) (rule_include r) \<and>
                 rule_exclude (?F r) = rule_exclude r" for r
    by (simp only: steps_rule_use_frame) (simp add: rule_use_def test_def include_add_def)
  ultimately show ?thesis by blast
qed

lemma rule_cssModulesStyles_disabled:
  "\<not> css_enabled cm \<Longrightarrow> rule_cssModulesStyles w cm pre = ret ()"
  by (simp add: rule_cssModulesStyles_def)


lemma styles_rule_fresh:
  assumes "distinct (map pre_name pre)"
    and "''cssExtract'' \<notin> set (map pre_name pre)" and "''css'' \<notin> set (map pre_name pre)"
  shows "steps (map (\<lambda>q. rule_use (pre_name q) (steps [loader (pre_loader q), options' (opts q)])) pre)
           (rule_use ''css'' (\<lambda>u. options' v (loader l u))
              (rule_use ''cssExtract'' (loader ex) (exclude_add e (test rx new_Rule)))) =
         \<lparr>rule_test = Some rx, rule_include = [], rule_exclude = [e],
          rule_uses =
            (''cssExtract'', \<lparr>use_loader = Some ex, use_options = None\<rparr>) #
            (''css'', \<lparr>use_loader = Some l, use_options = Some v\<rparr>) #
            map (\<lambda>q. (pre_name q, \<lparr>use_loader = Some (pre_loader q), use_options = Some (opts q)\<rparr>)) pre\<rparr>"
proof -
  let ?r0 = "rule_use ''css'' (\<lambda>u. options' v (loader l u))
              (rule_use ''cssExtract'' (loader ex) (exclude_add e (test rx new_Rule)))"
  let ?kfs = "map (\<lambda>q. (pre_name q, steps [loader (pre_loader q), options' (opts q)])) pre"
  have r0: "?r0 = \<lparr>rule_test = Some rx, rule_include = [], rule_exclude = [e],
                   rule_uses = [(''cssExtract'', \<lparr>use_loader = Some ex, use_options = None\<rparr>),
                                (''css'', \<lparr>use_loader = Some l, use_options = Some v\<rparr>)]\<rparr>"
    by (simp add: rule_use_def at_key_def test_def exclude_add_def set_add_def new_Rule_def
        new_Use_def loader_def options'_def)
  have m: "map (\<lambda>q. rule_use (pre_name q) (steps [loader (pre_loader q), options' (opts q)])) pre =
           map (\<lambda>kf. rule_use (fst kf) (snd kf)) ?kfs"
    by (simp add: comp_def)
  have step: "steps (map (\<lambda>kf. rule_use (fst kf) (snd kf)) ?kfs) ?r0 =
        ?r0\<lparr>rule_uses := rule_uses ?r0 @ map (\<lambda>kf. (fst kf, snd kf new_Use)) ?kfs\<rparr>"
    using assms by (intro steps_rule_use_fresh) (auto simp: r0 comp_def)
  have "steps (map (\<lambda>q. rule_use (pre_name q) (steps [loader (pre_loader q), options' (opts q)])) pre) ?r0 =
        steps (map (\<lambda>kf. rule_use (fst kf) (snd kf)) ?kfs) ?r0"
    by (simp only: m)
  also note step
  also have "?r0\<lparr>rule_uses := rule_uses ?r0 @ map (\<lambda>kf. (fst kf, snd kf new_Use)) ?kfs\<rparr> =
        \<lparr>rule_test = Some rx, rule_include = [], rule_exclude = [e],
          rule_uses =
            (''cssExtract'', \<lparr>use_loader = Some ex, use_options = None\<rparr>) #
            (''css'', \<lparr>use_loader = Some l, use_options = Some v\<rparr>) #
            map (\<lambda>q. (pre_name q, \<lparr>use_loader = Some (pre_loader q), use_options = Some (opts q)\<rparr>)) pre\<rparr>"
    unfolding r0 by (simp add: comp_def new_Use_def loader_def options'_def)
  finally show ?thesis .
qed

lemma resolvableD:
  assumes "resolvable w" and "i \<in> set (transformers w)"
  shows "\<exists>l. useLoader w i = Inr l"
proof -
  from assms have "\<not> isl (useLoader w i)" by (auto simp: resolvable_def list_all_iff)
  then show ?thesis by (cases "useLoader w i") auto
qed

lemma enabled_rule_resolved:
  assumes "style_enabled w pkg \<Longrightarrow> \<exists>l. useLoader w name = Inr l"
  shows "\<exists>r. enabled_rule w pkg name = Inr r \<and>
             map pre_name (case r of None \<Rightarrow> [] | Some q \<Rightarrow> [q]) = (if style_enabled w pkg then [name] else []) \<and>
             list_all (\<lambda>q. useLoader w (pre_name q) = Inr (pre_loader q) \<and> pre_options q = None)
               (case r of None \<Rightarrow> [] | Some q \<Rightarrow> [q])"
  using assms by (auto simp: enabled_rule_def bindE_def)

lemma map_filter_id4:
  "List.map_filter id [Some a, x, y, z] =
     a # (case x of None \<Rightarrow> [] | Some q \<Rightarrow> [q]) @ (case y of None \<Rightarrow> [] | Some q \<Rightarrow> [q]) @
         (case z of None \<Rightarrow> [] | Some q \<Rightarrow> [q])"
  by (simp add: List.map_filter_simps split: option.splits)

lemma preprocessCssRules_resolved:
  assumes "resolvable w"
  shows "\<exists>pre. preprocessCssRules w options = Inr pre \<and> map pre_name pre = candidates w \<and>
               list_all (\<lambda>q. useLoader w (pre_name q) = Inr (pre_loader q)) pre"
proof -
  obtain postcss where p: "useLoader w ''postcss'' = Inr postcss"
    using resolvableD [OF assms, of "''postcss''"] by (auto simp: transformers_def candidates_def)
  obtain less where less: "enabled_rule w ''less'' ''less'' = Inr less"
      "map pre_name (case less of None \<Rightarrow> [] | Some q \<Rightarrow> [q]) = (if style_enabled w ''less'' then [''less''] else [])"
      "list_all (\<lambda>q. useLoader w (pre_name q) = Inr (pre_loader q) \<and> pre_options q = None) (case less of None \<Rightarrow> [] | Some q \<Rightarrow> [q])"
    using enabled_rule_resolved [of w "''less''" "''less''"] resolvableD [OF assms, of "''less''"]
    by (auto simp: transformers_def candidates_def)
  obtain sass where sass: "enabled_rule w ''node-sass'' ''sass'' = Inr sass"
      "map pre_name (case sass of None \<Rightarrow> [] | Some q \<Rightarrow> [q]) = (if style_enabled w ''node-sass'' then [''sass''] else [])"
      "list_all (\<lambda>q. useLoader w (pre_name q) = Inr (pre_loader q) \<and> pre_options q = None) (case sass of None \<Rightarrow> [] | Some q \<Rightarrow> [q])"
    using enabled_rule_resolved [of w "''node-sass''" "''sass''"] resolvableD [OF assms, of "''sass''"]
    by (auto simp: transformers_def candidates_def)
  obtain stylus where stylus: "enabled_rule w ''stylus'' ''stylus'' = Inr stylus"
      "map pre_name (case stylus of None \<Rightarrow> [] | Some q \<Rightarrow> [q]) = (if style_enabled w ''stylus'' then [''stylus''] else [])"
      "list_all (\<lambda>q. useLoader w (pre_name q) = Inr (pre_loader q) \<and> pre_options q = None) (case stylus of None \<Rightarrow> [] | Some q \<Rightarrow> [q])"
    using enabled_rule_resolved [of w "''stylus''" "''stylus''"] resolvableD [OF assms, of "''stylus''"]
    by (auto simp: transformers_def candidates_def)
  from less(3) sass(3) stylus(3)
  have l: "list_all (\<lambda>q. useLoader w (pre_name q) = Inr (pre_loader q))
             ((case less of None \<Rightarrow> [] | Some q \<Rightarrow> [q]) @ (case sass of None \<Rightarrow> [] | Some q \<Rightarrow> [q]) @
              (case stylus of None \<Rightarrow> [] | Some q \<Rightarrow> [q]))"
    by (auto simp: list_all_iff)
  let ?postcss = "\<lparr>pre_name = ''postcss'', pre_loader = postcss,
                    pre_options = Some (Obj [(''config'', Obj [(''path'', resolvePostcssConfig w options)]),
                                             (''plugins'', Arr (filter truthy [pxToUnits w]))])\<rparr>"
  have "preprocessCssRules w options =
          Inr (?postcss # (case less of None \<Rightarrow> [] | Some q \<Rightarrow> [q]) @
                 (case sass of None \<Rightarrow> [] | Some q \<Rightarrow> [q]) @ (case stylus of None \<Rightarrow> [] | Some q \<Rightarrow> [q]))"
    unfolding preprocessCssRules_def map_filter_id4
    using p less(1) sass(1) stylus(1) by (simp add: bindE_def)
  moreover have "map pre_name (?postcss # (case less of None \<Rightarrow> [] | Some q \<Rightarrow> [q]) @
                 (case sass of None \<Rightarrow> [] | Some q \<Rightarrow> [q]) @ (case stylus of None \<Rightarrow> [] | Some q \<Rightarrow> [q])) =
                 candidates w"
    using less(2) sass(2) stylus(2) by (simp add: candidates_def)
  moreover have "list_all (\<lambda>q. useLoader w (pre_name q) = Inr (pre_loader q))
                  (?postcss # (case less of None \<Rightarrow> [] | Some q \<Rightarrow> [q]) @
                 (case sass of None \<Rightarrow> [] | Some q \<Rightarrow> [q]) @ (case stylus of None \<Rightarrow> [] | Some q \<Rightarrow> [q]))"
    using p l by simp
  ultimately show ?thesis by blast
qed


lemma at_key_Nil: "at_key k d f [] = [(k, f d)]"
  by (simp add: at_key_def)

lemma at_key_Cons:
  "at_key k d f ((k', v) # m) = (if k' = k then (k, f v) # m else (k', v) # at_key k d f m)"
  by (simp add: at_key_def)

lemma config_rule_fields [simp]:
  "module_rules (config_rule n f c) = at_key n new_Rule f (module_rules c)"
  "entryPoints (config_rule n f c) = entryPoints c"
  "plugins (config_rule n f c) = plugins c"
  by (simp_all add: config_rule_def)

lemma config_plugin_fields [simp]:
  "plugins (config_plugin n f c) = at_key n new_Plugin f (plugins c)"
  "entryPoints (config_plugin n f c) = entryPoints c"
  "module_rules (config_plugin n f c) = module_rules c"
  by (simp_all add: config_plugin_def)

lemma base_settings_fields [simp]:
  "module_rules (base_settings w options c) = module_rules c"
  "plugins (base_settings w options c) = plugins c"
  "entryPoints (base_settings w options c) = at_key ''index'' [] (set_add ''src/index.js'') (entryPoints c)"
  by (simp_all add: base_settings_def config_entry_def alias_merge_def)

lemma candidates_names:
  "distinct (candidates w)" "''cssExtract'' \<notin> set (candidates w)" "''css'' \<notin> set (candidates w)"
  by (simp_all add: candidates_def)

lemma configure_resolved:
  assumes prep: "prepare w options target = Inr p" and res: "resolvable w"
  obtains l and pre :: "PreprocessRule list" and F1 F2 F4 F5 F6 F7 F8 where
    "useLoader w ''css'' = Inr l"
    "map pre_name pre = candidates w"
    "list_all (\<lambda>q. useLoader w (pre_name q) = Inr (pre_loader q)) pre"
    "\<And>r. rule_test (F4 r) = Some (css_regExp (getCssModuleConfig w (cssModules options))) \<and>
         rule_include (F4 r) =
           set_add (Rx (css_regExp (getCssModuleConfig w (cssModules options)))) (rule_include r) \<and>
         rule_exclude (F4 r) = rule_exclude r"
    "configure w options target s =
       (Inr p,
        s\<lparr>config :=
            config_rule ''resolvePlatformFiles'' F8 (config_rule ''images'' F7
            (config_rule ''remaxDefineVariables'' F6 (config_rule ''json'' F5
            ((if css_enabled (getCssModuleConfig w (cssModules options))
              then config_rule ''cssModulesStyles'' F4 else (\<lambda>c. c))
            (config_rule ''styles''
               (\<lambda>r. steps (map (\<lambda>q. rule_use (pre_name q)
                               (steps [loader (pre_loader q),
                                       options' (case pre_options q of
                                                   None \<Rightarrow> Obj []
                                                 | Some v \<Rightarrow> if truthy v then v else Obj [])])) pre)
                  (rule_use ''css''
                     (\<lambda>u. options' (Obj [(''importLoaders'', Num (int (length pre)))]) (loader l u))
                     (rule_use ''cssExtract'' (loader (MiniCssExtractPlugin_loader w))
                        (exclude_add (if css_enabled (getCssModuleConfig w (cssModules options))
                                      then Rx (css_regExp (getCssModuleConfig w (cssModules options)))
                                      else Str [])
                           (test style_rx r)))))
            (config_rule ''compilation'' F2 (config_rule ''createAppOrPageConfig'' F1
            (base_settings w options (config s)))))))))\<rparr>)"
proof -
  let ?cm = "getCssModuleConfig w (cssModules options)"
  have mem: "set [''babel'', ''css'', ''json'', ''remax-define'', ''file'', ''resolve-platform'']
               \<subseteq> set (transformers w)"
    by (simp add: transformers_def)
  obtain babel where babel: "useLoader w ''babel'' = Inr babel"
    using resolvableD [OF res, of "''babel''"] mem by auto
  obtain l where css: "useLoader w ''css'' = Inr l"
    using resolvableD [OF res, of "''css''"] mem by auto
  obtain ljson where lj: "useLoader w ''json'' = Inr ljson"
    using resolvableD [OF res, of "''json''"] mem by auto
  obtain ldef where ld: "useLoader w ''remax-define'' = Inr ldef"
    using resolvableD [OF res, of "''remax-define''"] mem by auto
  obtain lfile where lf: "useLoader w ''file'' = Inr lfile"
    using resolvableD [OF res, of "''file''"] mem by auto
  obtain lplat where lp: "useLoader w ''resolve-platform'' = Inr lplat"
    using resolvableD [OF res, of "''resolve-platform''"] mem by auto
  obtain pre where pre: "preprocessCssRules w options = Inr pre" "map pre_name pre = candidates w"
      "list_all (\<lambda>q. useLoader w (pre_name q) = Inr (pre_loader q)) pre"
    using preprocessCssRules_resolved [OF res] by blast
  obtain F1 where F1: "rule_createAppOrPageConfig w (prep_entries p) = modify (config_rule ''createAppOrPageConfig'' F1)"
    using rule_createAppOrPageConfig_Inr [OF babel] by blast
  obtain F2 where F2: "rule_compilation w options = modify (config_rule ''compilation'' F2)"
    using rule_compilation_Inr [OF babel] by blast
  obtain F5 where F5: "simple_rule w ''json'' json_rx ''json'' ''json'' = modify (config_rule ''json'' F5)"
    using simple_rule_exists [OF lj] by blast
  obtain F6 where F6: "simple_rule w ''remaxDefineVariables'' define_rx ''remax-define'' ''remax-define'' =
      modify (config_rule ''remaxDefineVariables'' F6)"
    using simple_rule_exists [OF ld] by blast
  obtain F7 where F7: "simple_rule w ''images'' images_rx ''file'' ''file'' = modify (config_rule ''images'' F7)"
    using simple_rule_exists [OF lf] by blast
  obtain F8 where F8: "simple_rule w ''resolvePlatformFiles'' (matcher w) ''resolve-platform'' ''resolve-platform'' =
      modify (config_rule ''resolvePlatformFiles'' F8)"
    using simple_rule_exists [OF lp] by blast
  let ?S = "\<lambda>r. steps (map (\<lambda>q. rule_use (pre_name q)
                               (steps [loader (pre_loader q),
                                       options' (case pre_options q of
                                                   None \<Rightarrow> Obj []
                                                 | Some v \<Rightarrow> if truthy v then v else Obj [])])) pre)
                  (rule_use ''css''
                     (\<lambda>u. options' (Obj [(''importLoaders'', Num (int (length pre)))]) (loader l u))
                     (rule_use ''cssExtract'' (loader (MiniCssExtractPlugin_loader w))
                        (exclude_add (if css_enabled ?cm then Rx (css_regExp ?cm) else Str [])
                           (test style_rx r))))"
  have styles: "rule_styles w ?cm pre = modify (config_rule ''styles'' ?S)"
    by (rule rule_styles_Inr [OF css])
  show ?thesis
  proof (cases "css_enabled ?cm")
    case True
    obtain F4 where F4: "rule_cssModulesStyles w ?cm pre = modify (config_rule ''cssModulesStyles'' F4)"
      and F4r: "\<And>r. rule_test (F4 r) = Some (css_regExp ?cm) \<and>
                  rule_include (F4 r) = set_add (Rx (css_regExp ?cm)) (rule_include r) \<and>
                  rule_exclude (F4 r) = rule_exclude r"
      using rule_cssModulesStyles_Inr [OF css True, of pre] by blast
    show ?thesis
      by (rule that [OF css pre(2) pre(3) F4r, of F8 F7 F6 F5 F2 F1])
         (simp add: configure_def prep pre(1) F1 F2 F4 F5 F6 F7 F8 styles ret_def True)
  next
    case False
    let ?F4 = "\<lambda>r. r\<lparr>rule_test := Some (css_regExp ?cm),
                       rule_include := set_add (Rx (css_regExp ?cm)) (rule_include r)\<rparr>"
    have F4r: "rule_test (?F4 r) = Some (css_regExp ?cm) \<and>
               rule_include (?F4 r) = set_add (Rx (css_regExp ?cm)) (rule_include r) \<and>
               rule_exclude (?F4 r) = rule_exclude r" for r :: Rule
      by simp
    show ?thesis
      by (rule that [OF css pre(2) pre(3) F4r, of F8 F7 F6 F5 F2 F1])
         (simp add: configure_def prep pre(1) F1 F2 F5 F6 F7 F8 styles ret_def False
            rule_cssModulesStyles_disabled [OF False])
  qed
qed

lemma configure_succeeds:
  assumes "prepare w options target = Inr p" and "resolvable w"
  shows "\<exists>s1. configure w options target s = (Inr p, s1)"
  by (rule configure_resolved [OF assms, of s]) (erule exI)

lemma configure_fresh:
  assumes prep: "prepare w options target = Inr p" and res: "resolvable w"
    and fresh: "module_rules (config s) = []"
  obtains s1 l and pre :: "PreprocessRule list" and r1 r2 r4 r5 r6 r7 r8 where
    "configure w options target s = (Inr p, s1)"
    "useLoader w ''css'' = Inr l"
    "map pre_name pre = candidates w"
    "list_all (\<lambda>q. useLoader w (pre_name q) = Inr (pre_loader q)) pre"
    "module_rules (config s1) =
       [(''createAppOrPageConfig'', r1), (''compilation'', r2),
        (''styles'',
         \<lparr>rule_test = Some style_rx, rule_include = [],
          rule_exclude = [if css_enabled (getCssModuleConfig w (cssModules options))
                          then Rx (css_regExp (getCssModuleConfig w (cssModules options))) else Str []],
          rule_uses =
            (''cssExtract'', \<lparr>use_loader = Some (MiniCssExtractPlugin_loader w), use_options = None\<rparr>) #
            (''css'', \<lparr>use_loader = Some l,
                       use_options = Some (Obj [(''importLoaders'', Num (int (length pre)))])\<rparr>) #
            map (\<lambda>q. (pre_name q,
                       \<lparr>use_loader = Some (pre_loader q),
                        use_options = Some (case pre_options q of
                                              None \<Rightarrow> Obj []
                                            | Some v \<Rightarrow> if truthy v then v else Obj [])\<rparr>)) pre\<rparr>)] @
       (if css_enabled (getCssModuleConfig w (cssModules options))
        then [(''cssModulesStyles'', r4)] else []) @
       [(''json'', r5), (''remaxDefineVariables'', r6), (''images'', r7),
        (''resolvePlatformFiles'', r8)]"
    "rule_test r4 = Some (css_regExp (getCssModuleConfig w (cssModules options)))"
    "rule_include r4 = [Rx (css_regExp (getCssModuleConfig w (cssModules options)))]"
    "rule_exclude r4 = []"
    "entryPoints (config s1) = at_key ''index'' [] (set_add ''src/index.js'') (entryPoints (config s))"
    "plugins (config s1) = plugins (config s)"
    "hook_calls s1 = hook_calls s" "console s1 = console s"
proof (rule configure_resolved [OF prep res, of s])
  fix l and pre :: "PreprocessRule list" and F1 F2 F4 F5 F6 F7 F8
  let ?cm = "getCssModuleConfig w (cssModules options)"
  assume css: "useLoader w ''css'' = Inr l" and pre: "map pre_name pre = candidates w"
      "list_all (\<lambda>q. useLoader w (pre_name q) = Inr (pre_loader q)) pre"
    and F4r: "\<And>r. rule_test (F4 r) = Some (css_regExp ?cm) \<and>
         rule_include (F4 r) = set_add (Rx (css_regExp ?cm)) (rule_include r) \<and>
         rule_exclude (F4 r) = rule_exclude r"
    and run: "configure w options target s =
       (Inr p,
        s\<lparr>config :=
            config_rule ''resolvePlatformFiles'' F8 (config_rule ''images'' F7
            (config_rule ''remaxDefineVariables'' F6 (config_rule ''json'' F5
            ((if css_enabled ?cm then config_rule ''cssModulesStyles'' F4 else (\<lambda>c. c))
            (config_rule ''styles''
               (\<lambda>r. steps (map (\<lambda>q. rule_use (pre_name q)
                               (steps [loader (pre_loader q),
                                       options' (case pre_options q of
                                                   None \<Rightarrow> Obj []
                                                 | Some v \<Rightarrow> if truthy v then v else Obj [])])) pre)
                  (rule_use ''css''
                     (\<lambda>u. options' (Obj [(''importLoaders'', Num (int (length pre)))]) (loader l u))
                     (rule_use ''cssExtract'' (loader (MiniCssExtractPlugin_loader w))
                        (exclude_add (if css_enabled ?cm
                                      then Rx (css_regExp ?cm)
                                      else Str [])
                           (test style_rx r)))))
            (config_rule ''compilation'' F2 (config_rule ''createAppOrPageConfig'' F1
            (base_settings w options (config s)))))))))\<rparr>)"
  have names: "distinct (map pre_name pre)" "''cssExtract'' \<notin> set (map pre_name pre)"
    "''css'' \<notin> set (map pre_name pre)"
    unfolding pre(1) by (rule candidates_names)+
  note sty = styles_rule_fresh [OF names, simplified]
  show thesis
  proof (cases "css_enabled ?cm")
    case True
    show ?thesis
      by (rule that [OF run css pre(1) pre(2), of "F1 new_Rule" "F2 new_Rule" "F4 new_Rule"
            "F5 new_Rule" "F6 new_Rule" "F7 new_Rule" "F8 new_Rule"])
         (simp_all add: fresh at_key_Nil at_key_Cons sty True F4r set_add_def, simp_all add: new_Rule_def)
  next
    case False
    show ?thesis
      by (rule that [OF run css pre(1) pre(2), of "F1 new_Rule" "F2 new_Rule"
          "\<lparr>rule_test = Some (css_regExp ?cm), rule_include = [Rx (css_regExp ?cm)],
            rule_exclude = [], rule_uses = []\<rparr>"
          "F5 new_Rule" "F6 new_Rule" "F7 new_Rule" "F8 new_Rule"])
         (simp_all add: fresh at_key_Nil at_key_Cons sty False)
  qed
qed

subsection \<open>What every outcome of a call keeps\<close>

lemma keeps_ret: "reflp R \<Longrightarrow> keeps R (ret x)"
  by (simp add: keeps_def ret_def reflp_def)

lemma keeps_lift: "reflp R \<Longrightarrow> keeps R (lift r)"
  by (simp add: keeps_def lift_def reflp_def)

lemma keeps_modify: "(\<And>c. R c (f c)) \<Longrightarrow> keeps R (modify f)"
  by (simp add: keeps_def modify_def)

lemma keeps_seq:
  assumes "transp R" and "keeps R m" and "\<And>x. keeps R (f x)"
  shows "keeps R (seq m f)"
  unfolding keeps_def
proof
  fix s
  obtain r s1 where m: "m s = (r, s1)" by (cases "m s")
  have "R (config s) (config (snd (m s)))" using assms(2) unfolding keeps_def by (rule spec)
  with m have 1: "R (config s) (config s1)" by simp
  show "R (config s) (config (snd (seq m f s)))"
  proof (cases r)
    case (Inl e)
    with m 1 show ?thesis by (simp add: seq_def)
  next
    case (Inr x)
    have 2: "R (config s1) (config (snd (f x s1)))"
      using assms(3) [of x] unfolding keeps_def by (rule spec)
    have "R (config s) (config (snd (f x s1)))" by (rule transpD [OF assms(1) 1 2])
    with m Inr show ?thesis by (simp add: seq_def)
  qed
qed

lemma keeps_steps:
  assumes "reflp R" and "transp R" and "\<And>f c. f \<in> set fs \<Longrightarrow> R c (f c)"
  shows "R c (steps fs c)"
  using assms(3)
proof (induction fs arbitrary: c)
  case Nil
  from assms(1) have "R c c" by (rule reflpD)
  then show ?case by simp
next
  case (Cons f fs)
  have 1: "R c (f c)" by (rule Cons.prems) simp
  have 2: "R (f c) (steps fs (f c))" by (rule Cons.IH) (simp add: Cons.prems)
  have "R c (steps fs (f c))" by (rule transpD [OF assms(2) 1 2])
  then show ?case by simp
qed



lemma keeps_use_resolved:
  assumes "reflp R" and "transp R" and "\<And>n f c. R c (config_rule n f c)"
  shows "keeps R (use_resolved w rn un i rest)"
  unfolding use_resolved_def
  by (rule keeps_seq [OF assms(2)] keeps_modify keeps_lift [OF assms(1)] assms(3))+

lemma keeps_simple_rule:
  assumes "reflp R" and "transp R" and "\<And>n f c. R c (config_rule n f c)"
  shows "keeps R (simple_rule w rn rx un i)"
  unfolding simple_rule_def
  by (rule keeps_seq [OF assms(2)] keeps_modify keeps_use_resolved [OF assms] assms(3))+

lemma keeps_chain_preprocess:
  assumes "reflp R" and "transp R" and "\<And>n f c. R c (config_rule n f c)"
  shows "R c (chain_preprocess rn pre c)"
  unfolding chain_preprocess_def
proof (rule keeps_steps [OF assms(1,2)])
  fix f c
  assume "f \<in> set (map (\<lambda>r. config_rule rn
                        (rule_use (pre_name r)
                           (steps [loader (pre_loader r),
                                   options' (case pre_options r of
                                               None \<Rightarrow> Obj []
                                             | Some v \<Rightarrow> if truthy v then v else Obj [])]))) pre)"
  then obtain g where "f = config_rule rn g" by auto
  then show "R c (f c)" by (simp only: assms(3))
qed

lemma keeps_rule_createAppOrPageConfig:
  assumes "reflp R" and "transp R" and "\<And>n f c. R c (config_rule n f c)"
  shows "keeps R (rule_createAppOrPageConfig w entries)"
  unfolding rule_createAppOrPageConfig_def
  by (rule keeps_seq [OF assms(2)] keeps_modify keeps_use_resolved [OF assms] assms(3))+

lemma keeps_rule_compilation:
  assumes "reflp R" and "transp R" and "\<And>n f c. R c (config_rule n f c)"
  shows "keeps R (rule_compilation w options)"
  unfolding rule_compilation_def
  by (rule keeps_seq [OF assms(2)] keeps_modify keeps_use_resolved [OF assms] assms(3))+

lemma keeps_rule_styles:
  assumes "reflp R" and "transp R" and "\<And>n f c. R c (config_rule n f c)"
  shows "keeps R (rule_styles w cm pre)"
  unfolding rule_styles_def
  by (rule keeps_seq [OF assms(2)] keeps_modify keeps_use_resolved [OF assms]
      keeps_chain_preprocess [OF assms] assms(3))+

lemma keeps_rule_cssModulesStyles:
  assumes "reflp R" and "transp R" and "\<And>n f c. R c (config_rule n f c)"
  shows "keeps R (rule_cssModulesStyles w cm pre)"
proof (cases "css_enabled cm")
  case True
  then show ?thesis
    unfolding rule_cssModulesStyles_def
    by (simp only: if_True)
       ((rule keeps_seq [OF assms(2)] keeps_modify keeps_use_resolved [OF assms]
          keeps_chain_preprocess [OF assms] assms(3))+)
next
  case False
  then show ?thesis
    unfolding rule_cssModulesStyles_def by (simp add: keeps_ret assms(1))
qed

lemma keeps_configure:
  assumes "reflp R" and "transp R" and "\<And>n f c. R c (config_rule n f c)"
    and "\<And>c. R c (base_settings w options c)"
  shows "keeps R (configure w options target)"
  unfolding configure_def
  by (rule keeps_seq [OF assms(2)] keeps_modify keeps_lift [OF assms(1)] keeps_ret [OF assms(1)]
      keeps_simple_rule [OF assms(1-3)] keeps_rule_createAppOrPageConfig [OF assms(1-3)]
      keeps_rule_compilation [OF assms(1-3)] keeps_rule_styles [OF assms(1-3)]
      keeps_rule_cssModulesStyles [OF assms(1-3)] assms(4))+

lemma keeps_register_plugins:
  assumes "reflp R" and "transp R" and "\<And>n f c. R c (config_plugin n f c)"
  shows "keeps R (register_plugins w options env)"
proof -
  have rf: "R c c" for c using assms(1) by (rule reflpD)
  have opt: "R c ((if b then config_plugin n f else id) c)" for b n f c
    by (cases b) (simp_all add: assms(3) rf)
  have 1: "R c (steps [config_plugin n1 f1, if b then config_plugin n2 f2 else id,
                       config_plugin n3 f3, config_plugin n4 f4, config_plugin n5 f5] c)"
    for n1 f1 b n2 f2 n3 f3 n4 f4 n5 f5 c
    by (rule keeps_steps [OF assms(1,2)]) (auto simp: assms(3) rf)
  have 2: "R c (steps [config_plugin n1 f1, config_plugin n2 f2,
                       if b then config_plugin n3 f3 else id] c)"
    for n1 f1 b n2 f2 n3 f3 c
    by (rule keeps_steps [OF assms(1,2)]) (auto simp: assms(3) rf)
  show ?thesis
    unfolding register_plugins_def lookup_identifier_def
    by (rule keeps_seq [OF assms(2)] keeps_modify keeps_lift [OF assms(1)] assms(3) 1 2)+
qed

lemma keeps_console_log: "reflp R \<Longrightarrow> keeps R (console_log w)"
  by (auto simp: keeps_def console_log_def reflp_def split: sum.splits)

lemma keeps_run_hook_NotCallable: "reflp R \<Longrightarrow> keeps R (run_hook NotCallable)"
  by (simp add: keeps_def run_hook_def [abs_def] reflp_def)


subsection \<open>The first call\<close>

lemma webpackConfig_after_configure:
  assumes c: "configure w options target s = (Inr p, s1)"
    and h: "configWebpack options = NotCallable"
    and R: "reflp R" "transp R" "\<And>n f c. R c (config_plugin n f c)"
  shows "R (config s1) (config (snd (webpackConfig w options target s)))"
proof -
  have fin: "keeps R (\<lambda>s. (toConfig (require_module w) (config s), s))"
    using R(1) by (simp add: keeps_def reflp_def)
  have "keeps R (seq (register_plugins w options (prep_env p)) (\<lambda>_.
          seq (run_hook NotCallable) (\<lambda>_.
          seq (console_log w) (\<lambda>_.
          (\<lambda>s. (toConfig (require_module w) (config s), s))))))"
    by (rule keeps_seq [OF R(2)] keeps_register_plugins [OF R] keeps_console_log [OF R(1)]
        keeps_run_hook_NotCallable [OF R(1)] fin)+
  then have "R (config s1) (config (snd ((seq (register_plugins w options (prep_env p)) (\<lambda>_.
          seq (run_hook NotCallable) (\<lambda>_.
          seq (console_log w) (\<lambda>_.
          (\<lambda>s. (toConfig (require_module w) (config s), s)))))) s1)))"
    unfolding keeps_def by (rule spec)
  then show ?thesis
    unfolding webpackConfig_def h
    by (simp only: seq_Inr [of "configure w options target" s p s1, OF c])
qed

lemma rules_after_configure:
  assumes "configure w options target s = (Inr p, s1)" and "configWebpack options = NotCallable"
  shows "module_rules (config (snd (webpackConfig w options target s))) = module_rules (config s1)"
  by (rule webpackConfig_after_configure [OF assms, where R = "\<lambda>c c'. module_rules c' = module_rules c"])
     (simp_all add: reflp_def transp_def)

lemma entries_after_configure:
  assumes "configure w options target s = (Inr p, s1)" and "configWebpack options = NotCallable"
  shows "entryPoints (config (snd (webpackConfig w options target s))) = entryPoints (config s1)"
  by (rule webpackConfig_after_configure [OF assms, where R = "\<lambda>c c'. entryPoints c' = entryPoints c"])
     (simp_all add: reflp_def transp_def)


lemma seq_Inr_ex:
  "seq m f s = (Inr y, s') \<Longrightarrow> \<exists>x s1. m s = (Inr x, s1) \<and> f x s1 = (Inr y, s')"
  by (auto simp: seq_def split: prod.splits sum.splits)

lemma webpackConfig_Inr:
  assumes "webpackConfig w options target s = (Inr cfg, s')"
  obtains p s1 s2 s3 where
    "configure w options target s = (Inr p, s1)"
    "register_plugins w options (prep_env p) s1 = (Inr (), s2)"
    "run_hook (configWebpack options) s2 = (Inr (), s3)"
    "console_log w s3 = (Inr (), s')"
    "toConfig (require_module w) (config s') = Inr cfg"
proof -
  from seq_Inr_ex [OF assms [unfolded webpackConfig_def]] obtain p s1 where
    0: "configure w options target s = (Inr p, s1)" and
    1: "seq (register_plugins w options (prep_env p)) (\<lambda>_.
          seq (run_hook (configWebpack options)) (\<lambda>_.
          seq (console_log w) (\<lambda>_.
          (\<lambda>s. (toConfig (require_module w) (config s), s))))) s1 = (Inr cfg, s')"
    by blast
  from seq_Inr_ex [OF 1] obtain s2 where
    r: "register_plugins w options (prep_env p) s1 = (Inr (), s2)" and
    2: "seq (run_hook (configWebpack options)) (\<lambda>_.
          seq (console_log w) (\<lambda>_.
          (\<lambda>s. (toConfig (require_module w) (config s), s)))) s2 = (Inr cfg, s')"
    by auto
  from seq_Inr_ex [OF 2] obtain s3 where
    h: "run_hook (configWebpack options) s2 = (Inr (), s3)" and
    3: "seq (console_log w) (\<lambda>_.
          (\<lambda>s. (toConfig (require_module w) (config s), s))) s3 = (Inr cfg, s')"
    by auto
  from seq_Inr_ex [OF 3] obtain s4 where
    l: "console_log w s3 = (Inr (), s4)" and
    4: "(toConfig (require_module w) (config s4), s4) = (Inr cfg, s')"
    by auto
  from 4 have "s4 = s'" and "toConfig (require_module w) (config s') = Inr cfg" by auto
  with 0 r h l show ?thesis by (intro that) simp_all
qed

lemma webpackConfig_returned:
  assumes "webpackConfig w options target s = (Inr cfg, s')"
  shows "toConfig (require_module w) (config s') = Inr cfg"
  using assms by (rule webpackConfig_Inr)

lemma rule_named_rules_toConfig:
  "rule_named n (map Rule_toConfig m) = map_option (\<lambda>r. Rule_toConfig (n, r)) (map_of m n)"
  by (induction m) (auto simp: rule_named_def Rule_toConfig_def)

lemma returned_rules:
  assumes "fst (webpackConfig w options target new_state) = Inr cfg"
  shows "c_rules cfg = rules_toConfig (builder_after w options target)"
    and "c_entry cfg = entryPoints (builder_after w options target)"
proof -
  obtain s' where "webpackConfig w options target new_state = (Inr cfg, s')"
    using assms by (cases "webpackConfig w options target new_state") simp
  then have "toConfig (require_module w) (config s') = Inr cfg"
    and "builder_after w options target = config s'"
    by (simp_all add: webpackConfig_returned builder_after_def)
  then show "c_rules cfg = rules_toConfig (builder_after w options target)"
    and "c_entry cfg = entryPoints (builder_after w options target)"
    by (auto simp: toConfig_def bindE_def split: sum.splits)
qed

lemma map_of_named:
  assumes "q \<in> set pre" and "distinct (map k pre)"
  shows "map_of (map (\<lambda>q. (k q, u q)) pre) (k q) = Some (u q)"
  using assms by (induction pre) (auto simp: rev_image_eqI)


lemma first_call:
  assumes prep: "prepare w options target = Inr p" and res: "resolvable w"
    and hook: "configWebpack options = NotCallable"
  obtains l and pre :: "PreprocessRule list" and r4 where
    "useLoader w ''css'' = Inr l"
    "map pre_name pre = candidates w"
    "list_all (\<lambda>q. useLoader w (pre_name q) = Inr (pre_loader q)) pre"
    "map_of (module_rules (builder_after w options target)) ''styles'' =
       Some \<lparr>rule_test = Some style_rx, rule_include = [],
          rule_exclude = [if css_enabled (getCssModuleConfig w (cssModules options))
                          then Rx (css_regExp (getCssModuleConfig w (cssModules options))) else Str []],
          rule_uses =
            (''cssExtract'', \<lparr>use_loader = Some (MiniCssExtractPlugin_loader w), use_options = None\<rparr>) #
            (''css'', \<lparr>use_loader = Some l,
                       use_options = Some (Obj [(''importLoaders'', Num (int (length pre)))])\<rparr>) #
            map (\<lambda>q. (pre_name q,
                       \<lparr>use_loader = Some (pre_loader q),
                        use_options = Some (case pre_options q of
                                              None \<Rightarrow> Obj []
                                            | Some v \<Rightarrow> if truthy v then v else Obj [])\<rparr>)) pre\<rparr>"
    "map_of (module_rules (builder_after w options target)) ''cssModulesStyles'' =
       (if css_enabled (getCssModuleConfig w (cssModules options)) then Some r4 else None)"
    "rule_test r4 = Some (css_regExp (getCssModuleConfig w (cssModules options)))"
    "rule_include r4 = [Rx (css_regExp (getCssModuleConfig w (cssModules options)))]"
    "rule_exclude r4 = []"
    "map fst (module_rules (builder_after w options target)) =
       [''createAppOrPageConfig'', ''compilation'', ''styles''] @
       (if css_enabled (getCssModuleConfig w (cssModules options)) then [''cssModulesStyles''] else []) @
       [''json'', ''remaxDefineVariables'', ''images'', ''resolvePlatformFiles'']"
    "entryPoints (builder_after w options target) = [(''index'', [''src/index.js''])]"
proof -
  have fresh: "module_rules (config new_state) = []"
    by (simp add: new_state_def new_Config_def)
  obtain s1 l and pre :: "PreprocessRule list" and r1 r2 r4 r5 r6 r7 r8 where
    run: "configure w options target new_state = (Inr p, s1)"
    and css: "useLoader w ''css'' = Inr l"
    and pre: "map pre_name pre = candidates w"
      "list_all (\<lambda>q. useLoader w (pre_name q) = Inr (pre_loader q)) pre"
    and rules: "module_rules (config s1) =
       [(''createAppOrPageConfig'', r1), (''compilation'', r2),
        (''styles'',
         \<lparr>rule_test = Some style_rx, rule_include = [],
          rule_exclude = [if css_enabled (getCssModuleConfig w (cssModules options))
                          then Rx (css_regExp (getCssModuleConfig w (cssModules options))) else Str []],
          rule_uses =
            (''cssExtract'', \<lparr>use_loader = Some (MiniCssExtractPlugin_loader w), use_options = None\<rparr>) #
            (''css'', \<lparr>use_loader = Some l,
                       use_options = Some (Obj [(''importLoaders'', Num (int (length pre)))])\<rparr>) #
            map (\<lambda>q. (pre_name q,
                       \<lparr>use_loader = Some (pre_loader q),
                        use_options = Some (case pre_options q of
                                              None \<Rightarrow> Obj []
                                            | Some v \<Rightarrow> if truthy v then v else Obj [])\<rparr>)) pre\<rparr>)] @
       (if css_enabled (getCssModuleConfig w (cssModules options))
        then [(''cssModulesStyles'', r4)] else []) @
       [(''json'', r5), (''remaxDefineVariables'', r6), (''images'', r7),
        (''resolvePlatformFiles'', r8)]"
    and r4: "rule_test r4 = Some (css_regExp (getCssModuleConfig w (cssModules options)))"
      "rule_include r4 = [Rx (css_regExp (getCssModuleConfig w (cssModules options)))]"
      "rule_exclude r4 = []"
    and entries: "entryPoints (config s1) =
       at_key ''index'' [] (set_add ''src/index.js'') (entryPoints (config new_state))"
    by (rule configure_fresh [OF prep res fresh])
  have m: "module_rules (builder_after w options target) = module_rules (config s1)"
    unfolding builder_after_def by (rule rules_after_configure [OF run hook])
  have e: "entryPoints (builder_after w options target) = entryPoints (config s1)"
    unfolding builder_after_def by (rule entries_after_configure [OF run hook])
  show ?thesis
    by (rule that [OF css pre _ _ r4])
       (simp_all add: m e rules entries new_state_def new_Config_def at_key_Nil set_add_def)
qed


text \<open>
  C9. After the first call the plain style rule \<^verbatim>\<open>styles\<close> chains, in this order: the
  extraction loader, the css loader with \<^verbatim>\<open>importLoaders\<close> equal to the number of
  preprocessors in the candidate list, and each preprocessor of the candidate list
  (postcss, then less, sass and stylus when \<^verbatim>\<open>styleConfig.enabled\<close> reports them), each
  with the loader \<^verbatim>\<open>useLoader\<close> resolves for it.
\<close>

theorem styles_loader_chain:
  assumes "prepare w options target = Inr p" and "resolvable w"
    and "configWebpack options = NotCallable"
  shows "\<exists>r. rule_named ''styles'' (rules_toConfig (builder_after w options target)) = Some r \<and>
           map fst (rc_use r) = ''cssExtract'' # ''css'' # candidates w \<and>
           map_of (rc_use r) ''cssExtract'' =
             Some \<lparr>use_loader = Some (MiniCssExtractPlugin_loader w), use_options = None\<rparr> \<and>
           (\<exists>l. useLoader w ''css'' = Inr l \<and>
                map_of (rc_use r) ''css'' =
                  Some \<lparr>use_loader = Some l,
                        use_options = Some (Obj [(''importLoaders'',
                                                  Num (int (length (candidates w))))])\<rparr>) \<and>
           list_all (\<lambda>n. \<exists>l u. useLoader w n = Inr l \<and> map_of (rc_use r) n = Some u \<and>
                             use_loader u = Some l) (candidates w) \<and>
           (\<forall>cfg. fst (webpackConfig w options target new_state) = Inr cfg \<longrightarrow>
                  rule_named ''styles'' (c_rules cfg) = Some r)"
proof (rule first_call [OF assms])
  fix l and pre :: "PreprocessRule list" and r4
  let ?use = "\<lambda>q. \<lparr>use_loader = Some (pre_loader q),
                     use_options = Some (case pre_options q of
                                           None \<Rightarrow> Obj []
                                         | Some v \<Rightarrow> if truthy v then v else Obj [])\<rparr>"
  let ?r = "\<lparr>rule_test = Some style_rx, rule_include = [],
          rule_exclude = [if css_enabled (getCssModuleConfig w (cssModules options))
                          then Rx (css_regExp (getCssModuleConfig w (cssModules options))) else Str []],
          rule_uses =
            (''cssExtract'', \<lparr>use_loader = Some (MiniCssExtractPlugin_loader w), use_options = None\<rparr>) #
            (''css'', \<lparr>use_loader = Some l,
                       use_options = Some (Obj [(''importLoaders'', Num (int (length pre)))])\<rparr>) #
            map (\<lambda>q. (pre_name q, ?use q)) pre\<rparr>"
  assume css: "useLoader w ''css'' = Inr l"
    and names: "map pre_name pre = candidates w"
    and loaders: "list_all (\<lambda>q. useLoader w (pre_name q) = Inr (pre_loader q)) pre"
    and styles: "map_of (module_rules (builder_after w options target)) ''styles'' = Some ?r"
  let ?rc = "Rule_toConfig (''styles'', ?r)"
  have named: "rule_named ''styles'' (rules_toConfig (builder_after w options target)) = Some ?rc"
    by (simp add: rules_toConfig_def rule_named_rules_toConfig styles)
  have len: "length pre = length (candidates w)"
    using names by (metis length_map)
  have uses: "rc_use ?rc =
      (''cssExtract'', \<lparr>use_loader = Some (MiniCssExtractPlugin_loader w), use_options = None\<rparr>) #
      (''css'', \<lparr>use_loader = Some l,
                 use_options = Some (Obj [(''importLoaders'', Num (int (length (candidates w))))])\<rparr>) #
      map (\<lambda>q. (pre_name q, ?use q)) pre"
    by (simp add: Rule_toConfig_def len)
  have order: "map fst (rc_use ?rc) = ''cssExtract'' # ''css'' # candidates w"
    unfolding uses by (simp add: comp_def names)
  have each: "\<exists>l u. useLoader w n = Inr l \<and> map_of (rc_use ?rc) n = Some u \<and> use_loader u = Some l"
    if n: "n \<in> set (candidates w)" for n
  proof -
    from n have "n \<in> pre_name ` set pre" unfolding names [symmetric] by simp
    then obtain q where q: "q \<in> set pre" "pre_name q = n" by auto
    from q loaders have 1: "useLoader w n = Inr (pre_loader q)" by (auto simp: list_all_iff)
    have d: "distinct (map pre_name pre)" unfolding names by (rule candidates_names)
    from n have 2: "n \<noteq> ''cssExtract''" "n \<noteq> ''css''" using candidates_names(2,3) [of w] by auto
    have "map_of (map (\<lambda>q. (pre_name q, ?use q)) pre) (pre_name q) = Some (?use q)"
      using q(1) d by (rule map_of_named)
    with 2 q(2) have "map_of (rc_use ?rc) n = Some (?use q)"
      unfolding uses by simp
    with 1 show ?thesis by simp
  qed
  have returned: "rule_named ''styles'' (c_rules cfg) = Some ?rc"
    if "fst (webpackConfig w options target new_state) = Inr cfg" for cfg
    using returned_rules(1) [OF that] named by simp
  show ?thesis
  proof (intro exI [of _ ?rc] conjI)
    show "rule_named ''styles'' (rules_toConfig (builder_after w options target)) = Some ?rc"
      by (rule named)
    show "map fst (rc_use ?rc) = ''cssExtract'' # ''css'' # candidates w" by (rule order)
    show "map_of (rc_use ?rc) ''cssExtract'' =
             Some \<lparr>use_loader = Some (MiniCssExtractPlugin_loader w), use_options = None\<rparr>"
      unfolding uses by simp
    show "\<exists>l. useLoader w ''css'' = Inr l \<and>
                map_of (rc_use ?rc) ''css'' =
                  Some \<lparr>use_loader = Some l,
                        use_options = Some (Obj [(''importLoaders'',
                                                  Num (int (length (candidates w))))])\<rparr>"
      unfolding uses using css by simp
    show "list_all (\<lambda>n. \<exists>l u. useLoader w n = Inr l \<and> map_of (rc_use ?rc) n = Some u \<and>
                             use_loader u = Some l) (candidates w)"
      unfolding list_all_iff using each by blast
    show "\<forall>cfg. fst (webpackConfig w options target new_state) = Inr cfg \<longrightarrow>
                  rule_named ''styles'' (c_rules cfg) = Some ?rc"
      using returned by blast
  qed
qed

lemma example_facts:
  "\<not> isl (prepare example_world example_options ''web'')"
  "\<not> isl (prepare example_world plain_options ''web'')"
  "resolvable example_world"
  "candidates example_world = [''postcss'', ''less'']"
  "useLoader example_world ''css'' = Inr ''/node_modules/css-loader''"
  "getCssModuleConfig example_world (cssModules example_options) =
     \<lparr>css_enabled = True, css_regExp = module_rx\<rparr>"
  "css_enabled (getCssModuleConfig example_world (cssModules plain_options)) = False"
  by code_simp+

lemma example_hooks:
  "configWebpack example_options = NotCallable"
  "configWebpack plain_options = NotCallable"
  by (simp_all add: example_options_def plain_options_def)

lemma not_isl_Inr: "\<not> isl r \<Longrightarrow> \<exists>x. r = Inr x"
  by (cases r) simp_all

theorem styles_loader_chain_witness:
  "\<exists>r. rule_named ''styles'' (rules_toConfig (builder_after example_world example_options ''web'')) = Some r \<and>
       map fst (rc_use r) = [''cssExtract'', ''css'', ''postcss'', ''less''] \<and>
       map_of (rc_use r) ''css'' =
         Some \<lparr>use_loader = Some ''/node_modules/css-loader'',
               use_options = Some (Obj [(''importLoaders'', Num 2)])\<rparr>"
proof -
  obtain p where p: "prepare example_world example_options ''web'' = Inr p"
    using not_isl_Inr [OF example_facts(1)] by blast
  from styles_loader_chain [OF p example_facts(3) example_hooks(1)]
  show ?thesis by (auto simp: example_facts(4,5))
qed

text \<open>
  C7. With CSS modules enabled, the first call leaves a plain rule \<^verbatim>\<open>styles\<close> and a
  module rule \<^verbatim>\<open>cssModulesStyles\<close>. The plain rule applies to exactly the style files
  that the module expression does not match, the module rule to exactly the files the
  module expression matches: no file is claimed by both, and a style file that matches
  the module expression is claimed by the module rule alone.
\<close>

theorem css_module_rules_exclusive:
  assumes "prepare w options target = Inr p" and "resolvable w"
    and "configWebpack options = NotCallable"
    and "css_enabled (getCssModuleConfig w (cssModules options))"
  shows "\<exists>plain modular.
     rule_named ''styles'' (rules_toConfig (builder_after w options target)) = Some plain \<and>
     rule_named ''cssModulesStyles'' (rules_toConfig (builder_after w options target)) = Some modular \<and>
     (\<forall>f. rule_matches w plain f =
            (style_file f \<and> \<not> RegExp_test w (css_regExp (getCssModuleConfig w (cssModules options))) f)) \<and>
     (\<forall>f. rule_matches w modular f =
            RegExp_test w (css_regExp (getCssModuleConfig w (cssModules options))) f) \<and>
     (\<forall>f. \<not> (rule_matches w plain f \<and> rule_matches w modular f)) \<and>
     (\<forall>f. style_file f \<and> RegExp_test w (css_regExp (getCssModuleConfig w (cssModules options))) f \<longrightarrow>
            rule_matches w modular f \<and> \<not> rule_matches w plain f) \<and>
     (\<forall>cfg. fst (webpackConfig w options target new_state) = Inr cfg \<longrightarrow>
            rule_named ''styles'' (c_rules cfg) = Some plain \<and>
            rule_named ''cssModulesStyles'' (c_rules cfg) = Some modular)"
proof (rule first_call [OF assms(1-3)])
  fix l and pre :: "PreprocessRule list" and r4
  let ?re = "css_regExp (getCssModuleConfig w (cssModules options))"
  let ?r = "\<lparr>rule_test = Some style_rx, rule_include = [],
          rule_exclude = [if css_enabled (getCssModuleConfig w (cssModules options))
                          then Rx (css_regExp (getCssModuleConfig w (cssModules options))) else Str []],
          rule_uses =
            (''cssExtract'', \<lparr>use_loader = Some (MiniCssExtractPlugin_loader w), use_options = None\<rparr>) #
            (''css'', \<lparr>use_loader = Some l,
                       use_options = Some (Obj [(''importLoaders'', Num (int (length pre)))])\<rparr>) #
            map (\<lambda>q. (pre_name q,
                       \<lparr>use_loader = Some (pre_loader q),
                        use_options = Some (case pre_options q of
                                              None \<Rightarrow> Obj []
                                            | Some v \<Rightarrow> if truthy v then v else Obj [])\<rparr>)) pre\<rparr>"
  assume styles: "map_of (module_rules (builder_after w options target)) ''styles'' = Some ?r"
    and modular: "map_of (module_rules (builder_after w options target)) ''cssModulesStyles'' =
       (if css_enabled (getCssModuleConfig w (cssModules options)) then Some r4 else None)"
    and r4: "rule_test r4 = Some ?re" "rule_include r4 = [Rx ?re]" "rule_exclude r4 = []"
  let ?plain = "Rule_toConfig (''styles'', ?r)"
  let ?modular = "Rule_toConfig (''cssModulesStyles'', r4)"
  have 1: "rule_named ''styles'' (rules_toConfig (builder_after w options target)) = Some ?plain"
    by (simp add: rules_toConfig_def rule_named_rules_toConfig styles)
  have 2: "rule_named ''cssModulesStyles'' (rules_toConfig (builder_after w options target)) = Some ?modular"
    by (simp add: rules_toConfig_def rule_named_rules_toConfig modular assms(4))
  have 3: "rule_matches w ?plain f = (style_file f \<and> \<not> RegExp_test w ?re f)" for f
    by (simp add: rule_matches_def Rule_toConfig_def assms(4) RegExp_test_def)
  have 4: "rule_matches w ?modular f = RegExp_test w ?re f" for f
    by (simp add: rule_matches_def Rule_toConfig_def r4)
  have 5: "rule_named ''styles'' (c_rules cfg) = Some ?plain \<and>
           rule_named ''cssModulesStyles'' (c_rules cfg) = Some ?modular"
    if "fst (webpackConfig w options target new_state) = Inr cfg" for cfg
    using returned_rules(1) [OF that] 1 2 by simp
  have 6: "\<not> (rule_matches w ?plain f \<and> rule_matches w ?modular f)" for f
    unfolding 3 4 by simp
  have 7: "rule_matches w ?modular f \<and> \<not> rule_matches w ?plain f"
    if "style_file f \<and> RegExp_test w ?re f" for f
    unfolding 3 4 using that by simp
  show ?thesis
  proof (intro exI conjI)
    show "rule_named ''styles'' (rules_toConfig (builder_after w options target)) = Some ?plain"
      by (rule 1)
    show "rule_named ''cssModulesStyles'' (rules_toConfig (builder_after w options target)) = Some ?modular"
      by (rule 2)
    show "\<forall>f. rule_matches w ?plain f = (style_file f \<and> \<not> RegExp_test w ?re f)"
      using 3 by (rule allI)
    show "\<forall>f. rule_matches w ?modular f = RegExp_test w ?re f"
      using 4 by (rule allI)
    show "\<forall>f. \<not> (rule_matches w ?plain f \<and> rule_matches w ?modular f)"
      using 6 by (rule allI)
    show "\<forall>f. style_file f \<and> RegExp_test w ?re f \<longrightarrow>
            rule_matches w ?modular f \<and> \<not> rule_matches w ?plain f"
      using 7 by (intro allI impI)
    show "\<forall>cfg. fst (webpackConfig w options target new_state) = Inr cfg \<longrightarrow>
            rule_named ''styles'' (c_rules cfg) = Some ?plain \<and>
            rule_named ''cssModulesStyles'' (c_rules cfg) = Some ?modular"
      using 5 by (intro allI impI)
  qed
qed

theorem css_module_rules_exclusive_witness:
  "\<exists>plain modular.
     rule_named ''styles'' (rules_toConfig (builder_after example_world example_options ''web'')) = Some plain \<and>
     rule_named ''cssModulesStyles'' (rules_toConfig (builder_after example_world example_options ''web'')) = Some modular \<and>
     rule_matches example_world modular ''/proj/src/a.module.css'' \<and>
     \<not> rule_matches example_world plain ''/proj/src/a.module.css'' \<and>
     rule_matches example_world plain ''/proj/src/a.css'' \<and>
     \<not> rule_matches example_world modular ''/proj/src/a.css''"
proof -
  obtain p where p: "prepare example_world example_options ''web'' = Inr p"
    using not_isl_Inr [OF example_facts(1)] by blast
  have e: "css_enabled (getCssModuleConfig example_world (cssModules example_options))"
    by (simp add: example_facts(6))
  have m: "RegExp_test example_world module_rx ''/proj/src/a.module.css''"
    "\<not> RegExp_test example_world module_rx ''/proj/src/a.css''"
    "style_file ''/proj/src/a.css''"
    by code_simp+
  from css_module_rules_exclusive [OF p example_facts(3) example_hooks(1) e]
  obtain plain modular where
    r: "rule_named ''styles'' (rules_toConfig (builder_after example_world example_options ''web'')) = Some plain"
      "rule_named ''cssModulesStyles'' (rules_toConfig (builder_after example_world example_options ''web'')) = Some modular"
    and pl: "\<And>f. rule_matches example_world plain f =
            (style_file f \<and> \<not> RegExp_test example_world
               (css_regExp (getCssModuleConfig example_world (cssModules example_options))) f)"
    and mo: "\<And>f. rule_matches example_world modular f =
            RegExp_test example_world
              (css_regExp (getCssModuleConfig example_world (cssModules example_options))) f"
    by blast
  have re: "css_regExp (getCssModuleConfig example_world (cssModules example_options)) = module_rx"
    by (simp add: example_facts(6))
  show ?thesis
    using r m by (intro exI [of _ plain] exI [of _ modular]) (simp add: pl mo re)
qed

text \<open>
  C1, as the code has it. Line 58 adds the fixed entry \<^verbatim>\<open>index\<close> with the single
  module \<^verbatim>\<open>src/index.js\<close>, and nothing else writes an entry: after the first call,
  the builder's entry, and the entry of the configuration when one is returned, is this
  one, whatever the options and the entries discovered.
\<close>

theorem entry_is_fixed:
  assumes "prepare w options target = Inr p" and "resolvable w"
    and "configWebpack options = NotCallable"
  shows "entryPoints (builder_after w options target) = [(''index'', [''src/index.js''])] \<and>
         (\<forall>cfg. fst (webpackConfig w options target new_state) = Inr cfg \<longrightarrow>
                c_entry cfg = [(''index'', [''src/index.js''])])"
proof (rule first_call [OF assms])
  assume e: "entryPoints (builder_after w options target) = [(''index'', [''src/index.js''])]"
  have "c_entry cfg = [(''index'', [''src/index.js''])]"
    if "fst (webpackConfig w options target new_state) = Inr cfg" for cfg
    using returned_rules(2) [OF that] e by simp
  with e show ?thesis by blast
qed

theorem entry_is_fixed_witness:
  "entryPoints (builder_after example_world example_options ''web'') = [(''index'', [''src/index.js''])]"
proof -
  obtain p where p: "prepare example_world example_options ''web'' = Inr p"
    using not_isl_Inr [OF example_facts(1)] by blast
  from entry_is_fixed [OF p example_facts(3) example_hooks(1)] show ?thesis by blast
qed

lemma plain_rule_disabled:
  assumes "prepare w options target = Inr p" and "resolvable w"
    and "configWebpack options = NotCallable"
    and "\<not> css_enabled (getCssModuleConfig w (cssModules options))"
  shows "rule_named ''cssModulesStyles'' (rules_toConfig (builder_after w options target)) = None \<and>
         (\<exists>plain. rule_named ''styles'' (rules_toConfig (builder_after w options target)) = Some plain \<and>
                  rc_exclude plain = [Str []] \<and> (\<forall>f. \<not> rule_matches w plain f))"
proof (rule first_call [OF assms(1-3)])
  fix l and pre :: "PreprocessRule list" and r4
  let ?r = "\<lparr>rule_test = Some style_rx, rule_include = [],
          rule_exclude = [if css_enabled (getCssModuleConfig w (cssModules options))
                          then Rx (css_regExp (getCssModuleConfig w (cssModules options))) else Str []],
          rule_uses =
            (''cssExtract'', \<lparr>use_loader = Some (MiniCssExtractPlugin_loader w), use_options = None\<rparr>) #
            (''css'', \<lparr>use_loader = Some l,
                       use_options = Some (Obj [(''importLoaders'', Num (int (length pre)))])\<rparr>) #
            map (\<lambda>q. (pre_name q,
                       \<lparr>use_loader = Some (pre_loader q),
                        use_options = Some (case pre_options q of
                                              None \<Rightarrow> Obj []
                                            | Some v \<Rightarrow> if truthy v then v else Obj [])\<rparr>)) pre\<rparr>"
  assume styles: "map_of (module_rules (builder_after w options target)) ''styles'' = Some ?r"
    and modular: "map_of (module_rules (builder_after w options target)) ''cssModulesStyles'' =
       (if css_enabled (getCssModuleConfig w (cssModules options)) then Some r4 else None)"
  let ?plain = "Rule_toConfig (''styles'', ?r)"
  have 1: "rule_named ''styles'' (rules_toConfig (builder_after w options target)) = Some ?plain"
    by (simp add: rules_toConfig_def rule_named_rules_toConfig styles)
  have 2: "rule_named ''cssModulesStyles'' (rules_toConfig (builder_after w options target)) = None"
    by (simp add: rules_toConfig_def rule_named_rules_toConfig modular assms(4))
  have 3: "rc_exclude ?plain = [Str []]" by (simp add: Rule_toConfig_def assms(4))
  have 4: "\<not> rule_matches w ?plain f" for f
    by (simp add: rule_matches_def Rule_toConfig_def assms(4))
  from 1 2 3 4 show ?thesis by blast
qed

text \<open>
  C8, at the example project with CSS modules switched off. No rule \<^verbatim>\<open>cssModulesStyles\<close>
  is registered, but line 115 adds the empty string to the \<^verbatim>\<open>exclude\<close> set of the plain
  rule where it means to add nothing. The bundler reads a string condition as a path
  prefix, and the empty string is a prefix of every path: the style file
  \<^verbatim>\<open>/proj/src/app.css\<close> is excluded from the plain rule, which applies to no file at all.
\<close>

theorem plain_rule_excludes_every_file:
  "rule_named ''cssModulesStyles'' (rules_toConfig (builder_after example_world plain_options ''web'')) = None \<and>
   (\<exists>plain. rule_named ''styles'' (rules_toConfig (builder_after example_world plain_options ''web'')) = Some plain \<and>
            rc_exclude plain = [Str []] \<and>
            style_file ''/proj/src/app.css'' \<and>
            \<not> rule_matches example_world plain ''/proj/src/app.css'')"
proof -
  obtain p where p: "prepare example_world plain_options ''web'' = Inr p"
    using not_isl_Inr [OF example_facts(2)] by blast
  have d: "\<not> css_enabled (getCssModuleConfig example_world (cssModules plain_options))"
    by (simp add: example_facts(7))
  have s: "style_file ''/proj/src/app.css''" by code_simp
  from plain_rule_disabled [OF p example_facts(3) example_hooks(2) d] s
  show ?thesis by blast
qed

subsection \<open>The plugins and the callback\<close>

lemma register_plugins_bound:
  assumes "globals w ''VirtualModulePlugin'' = Some v" and "globals w ''meta'' = Some m"
  shows "register_plugins w options env s = (Inr (), s\<lparr>config := registered w options env v m (config s)\<rparr>)"
  by (simp add: register_plugins_def lookup_identifier_def assms modify_def registered_def
      config_plugin_twice)


lemma instantiable_Inr:
  assumes "plugin_ctor pl = Some v" and "instantiable w v"
  shows "\<exists>i. Plugin_toConfig (require_module w) (n, pl) = Inr (n, i)"
  using assms unfolding instantiable_def
  by (auto simp: Plugin_toConfig_def plugin_init_def bindE_def
      split: option.splits jsval.splits sum.splits)

lemma instantiable_New [simp]: "instantiable w (New c a)"
  by (simp add: instantiable_def Plugin_toConfig_def plugin_init_def bindE_def)

lemma instantiable_Fn [simp]: "instantiable w (Fn c)"
  by (simp add: instantiable_def Plugin_toConfig_def plugin_init_def bindE_def)



lemma plugins_toConfig_finalizable:
  assumes "list_all (\<lambda>np. case plugin_ctor (snd np) of None \<Rightarrow> False | Some v \<Rightarrow> instantiable w v) ps"
  shows "\<exists>qs. plugins_toConfig (require_module w) ps = Inr qs"
  using assms
proof (induction ps)
  case Nil
  then show ?case by simp
next
  case (Cons np ps)
  obtain n pl where np: "np = (n, pl)" by (cases np)
  from Cons.prems np obtain v where v: "plugin_ctor pl = Some v" "instantiable w v"
    by (auto split: option.splits)
  from instantiable_Inr [OF v] obtain i where
    "Plugin_toConfig (require_module w) (n, pl) = Inr (n, i)" by blast
  moreover from Cons obtain qs where "plugins_toConfig (require_module w) ps = Inr qs" by auto
  ultimately show ?case by (simp add: np bindE_def)
qed

lemma toConfig_finalizable:
  assumes "finalizable w c"
  shows "\<exists>cfg. toConfig (require_module w) c = Inr cfg"
proof -
  from plugins_toConfig_finalizable [OF assms [unfolded finalizable_def]]
  obtain qs where "plugins_toConfig (require_module w) (plugins c) = Inr qs" by blast
  then show ?thesis by (simp add: toConfig_def bindE_def)
qed


lemma set_at_key:
  "set (at_key k d f m) \<subseteq> insert (k, f (case map_of m k of None \<Rightarrow> d | Some v \<Rightarrow> v)) (set m)"
proof -
  have "set (AList.update k v m) \<subseteq> insert (k, v) (set m)" for v
    by (induction m) auto
  then show ?thesis by (simp add: at_key_def)
qed


lemma finalizable_plugin_use:
  assumes "finalizable w c" and "instantiable w v"
  shows "finalizable w (config_plugin n (plugin_use v args) c)"
proof -
  let ?P = "\<lambda>np. case plugin_ctor (snd np) of None \<Rightarrow> False | Some v \<Rightarrow> instantiable w v"
  have "?P x" if "x \<in> set (at_key n new_Plugin (plugin_use v args) (plugins c))" for x
  proof -
    from that set_at_key [of n new_Plugin "plugin_use v args" "plugins c"]
    have "x = (n, plugin_use v args (case map_of (plugins c) n of None \<Rightarrow> new_Plugin | Some v \<Rightarrow> v))
            \<or> x \<in> set (plugins c)"
      by auto
    then show ?thesis
    proof
      assume "x = (n, plugin_use v args (case map_of (plugins c) n of None \<Rightarrow> new_Plugin | Some v \<Rightarrow> v))"
      then show ?thesis by (simp add: plugin_use_def assms(2))
    next
      assume "x \<in> set (plugins c)"
      with assms(1) show ?thesis by (simp add: finalizable_def list_all_iff)
    qed
  qed
  then show ?thesis by (simp add: finalizable_def list_all_iff)
qed

lemma finalizable_registered:
  assumes "finalizable w c" and "instantiable w v" and "instantiable w (OptimizeEntries w m)"
    and "instantiable w (NativeFiles w options)"
  shows "finalizable w (registered w options env v m c)"
  unfolding registered_def
  by (simp add: finalizable_plugin_use assms)














lemma configure_plugins:
  assumes "configure w options target s = (r, s1)"
  shows "plugins (config s1) = plugins (config s)"
proof -
  have "keeps (\<lambda>c c'. plugins c' = plugins c) (configure w options target)"
    by (rule keeps_configure) (simp_all add: reflp_def transp_def)
  then have "plugins (config (snd (configure w options target s))) = plugins (config s)"
    unfolding keeps_def by (rule spec)
  with assms show ?thesis by simp
qed

lemma webpackConfig_run:
  assumes c: "configure w options target s = (Inr p, s1)"
    and r: "register_plugins w options (prep_env p) s1 = (Inr (), s2)"
    and h: "run_hook (configWebpack options) s2 = (Inr (), s3)"
    and t: "toConfig (require_module w) (config s3) = Inr cfg"
  shows "webpackConfig w options target s = (Inr cfg, s3\<lparr>console := console s3 @ [cfg]\<rparr>)"
  by (simp add: webpackConfig_def seq_def c r h t console_log_def)

lemma webpackConfig_returns:
  assumes prep: "prepare w options target = Inr p" and res: "resolvable w"
    and v: "globals w ''VirtualModulePlugin'' = Some v" "instantiable w v"
    and m: "globals w ''meta'' = Some m" "instantiable w (OptimizeEntries w m)"
    and nf: "instantiable w (NativeFiles w options)"
    and fin: "finalizable w (config s)"
    and hook: "configWebpack options = NotCallable \<or>
               (\<exists>n x a. configWebpack options = Callable (marker_hook n x a) \<and> instantiable w x)"
  obtains cfg s' where "webpackConfig w options target s = (Inr cfg, s')"
    and "finalizable w (config s')"
proof -
  obtain s1 where c: "configure w options target s = (Inr p, s1)"
    using configure_succeeds [OF prep res] by blast
  from configure_plugins [OF c] fin have f1: "finalizable w (config s1)"
    by (simp add: finalizable_def)
  let ?s2 = "s1\<lparr>config := registered w options (prep_env p) v m (config s1)\<rparr>"
  have r: "register_plugins w options (prep_env p) s1 = (Inr (), ?s2)"
    by (rule register_plugins_bound [OF v(1) m(1)])
  have f2: "finalizable w (config ?s2)"
    by (simp add: finalizable_registered [OF f1 v(2) m(2) nf])
  obtain s3 where h: "run_hook (configWebpack options) ?s2 = (Inr (), s3)"
    and f3: "finalizable w (config s3)"
  proof -
    from hook show ?thesis
    proof
      assume "configWebpack options = NotCallable"
      then have "run_hook (configWebpack options) ?s2 = (Inr (), ?s2)" by (simp add: run_hook_def)
      then show ?thesis using f2 by (rule that)
    next
      assume "\<exists>n x a. configWebpack options = Callable (marker_hook n x a) \<and> instantiable w x"
      then obtain n x a where cb: "configWebpack options = Callable (marker_hook n x a)"
        and x: "instantiable w x" by blast
      let ?s3 = "?s2\<lparr>config := config_plugin n (plugin_use x a) (config ?s2),
                     hook_calls := Suc (hook_calls ?s2)\<rparr>"
      have "run_hook (configWebpack options) ?s2 = (Inr (), ?s3)"
        by (simp add: cb run_hook_def marker_hook_def)
      moreover have "finalizable w (config ?s3)"
        using finalizable_plugin_use [OF f2 x] by simp
      ultimately show ?thesis by (rule that)
    qed
  qed
  obtain cfg where t: "toConfig (require_module w) (config s3) = Inr cfg"
    using toConfig_finalizable [OF f3] by blast
  show ?thesis
    by (rule that [OF webpackConfig_run [OF c r h t]]) (simp add: f3)
qed




lemma bound_facts:
  "\<not> isl (prepare bound_world example_options ''web'')"
  "\<not> isl (prepare bound_world plain_options ''web'')"
  "\<not> isl (prepare bound_world marker_options ''web'')"
  "resolvable bound_world"
  by code_simp+

lemma bound_globals:
  "globals bound_world ''VirtualModulePlugin'' = Some (Fn ''VirtualModulePlugin'')"
  "globals bound_world ''meta'' = Some (Obj [])"
  "instantiable bound_world (OptimizeEntries bound_world m)"
  "instantiable bound_world (NativeFiles bound_world options)"
  "NODE_ENV bound_world = Some ''development''"
  by (simp_all add: bound_world_def example_world_def)


lemma finalizable_new: "finalizable w (config new_state)"
  by (simp add: finalizable_def new_state_def new_Config_def)


subsection \<open>Calls that return, and calls after calls\<close>

lemma bound_returns:
  assumes "prepare bound_world options ''web'' = Inr p" and "configWebpack options = NotCallable"
    and "finalizable bound_world (config s)"
  obtains cfg s' where "webpackConfig bound_world options ''web'' s = (Inr cfg, s')"
    and "finalizable bound_world (config s')"
proof -
  have hook: "configWebpack options = NotCallable \<or>
      (\<exists>n x a. configWebpack options = Callable (marker_hook n x a) \<and> instantiable bound_world x)"
    using assms(2) by simp
  show ?thesis
    by (rule webpackConfig_returns [OF assms(1) bound_facts(4) bound_globals(1) instantiable_Fn
          bound_globals(2,3,4) assms(3) hook]) (rule that)
qed

text \<open>
  C1 fails as stated. With the two free identifiers bound, the call for the example
  project returns a configuration; the entry map that \<^verbatim>\<open>prepare\<close> built has the three
  entries of the project, the configuration has the one fixed entry.
\<close>

theorem returned_entry_ignores_entryMap:
  "map_sum id prep_entryMap (prepare bound_world example_options ''web'') =
     Inr [(''app'', ''/proj/src/app.js''), (''pages/index'', ''/proj/src/pages/index.js''),
          (''pages/about'', ''/proj/src/pages/about.tsx'')] \<and>
   map_sum id c_entry (fst (webpackConfig bound_world example_options ''web'' new_state)) =
     Inr [(''index'', [''src/index.js''])]"
proof
  show "map_sum id prep_entryMap (prepare bound_world example_options ''web'') =
     Inr [(''app'', ''/proj/src/app.js''), (''pages/index'', ''/proj/src/pages/index.js''),
          (''pages/about'', ''/proj/src/pages/about.tsx'')]"
    by code_simp
  obtain p where p: "prepare bound_world example_options ''web'' = Inr p"
    using not_isl_Inr [OF bound_facts(1)] by blast
  obtain cfg s' where
    run: "webpackConfig bound_world example_options ''web'' new_state = (Inr cfg, s')"
    using bound_returns [OF p example_hooks(1) finalizable_new] by blast
  then have cfg: "fst (webpackConfig bound_world example_options ''web'' new_state) = Inr cfg"
    by simp
  have "entryPoints (builder_after bound_world example_options ''web'') = [(''index'', [''src/index.js''])]"
    by (rule first_call [OF p bound_facts(4) example_hooks(1)])
  with returned_rules(2) [OF cfg] have "c_entry cfg = [(''index'', [''src/index.js''])]" by simp
  with cfg show "map_sum id c_entry (fst (webpackConfig bound_world example_options ''web'' new_state)) =
     Inr [(''index'', [''src/index.js''])]"
    by simp
qed






subsection \<open>A call repeated\<close>








lemma set_merge_Cons: "set_merge (x # xs) ys = set_merge xs (set_add x ys)"
  by (simp add: set_merge_def)





lemma update_all_settled:
  "(\<And>kv. kv \<in> set obj \<Longrightarrow> map_of m (fst kv) = Some (snd kv)) \<Longrightarrow>
   foldl (\<lambda>m kv. AList.update (fst kv) (snd kv) m) m obj = m"
  by (induction obj) (simp_all add: update_triv)

lemma map_of_update_all:
  "distinct (map fst obj) \<Longrightarrow> kv \<in> set obj \<Longrightarrow>
   map_of (foldl (\<lambda>m kv. AList.update (fst kv) (snd kv) m) m obj) (fst kv) = Some (snd kv)"
proof (induction obj arbitrary: m)
  case Nil
  then show ?case by simp
next
  case (Cons a obj)
  have other: "k \<notin> fst ` set xs \<Longrightarrow>
      map_of (foldl (\<lambda>m kv. AList.update (fst kv) (snd kv) m) m' xs) k = map_of m' k" for k xs m'
    by (induction xs arbitrary: m') (auto simp: update_conv')
  show ?case
  proof (cases "kv = a")
    case True
    with Cons.prems have "fst a \<notin> fst ` set obj" by auto
    with True show ?thesis by (simp add: other update_conv')
  next
    case False
    with Cons show ?thesis by auto
  qed
qed

lemma alias_merge_twice:
  assumes "distinct (map fst obj)"
  shows "alias_merge obj (alias_merge obj c) = alias_merge obj c"
proof -
  have "foldl (\<lambda>m kv. AList.update (fst kv) (snd kv) m)
          (foldl (\<lambda>m kv. AList.update (fst kv) (snd kv) m) (resolve_alias c) obj) obj =
        foldl (\<lambda>m kv. AList.update (fst kv) (snd kv) m) (resolve_alias c) obj"
    by (rule update_all_settled) (rule map_of_update_all [OF assms])
  then show ?thesis by (simp add: alias_merge_def)
qed





lemma loader_twice:
  "loader l (loader l u) = loader l u"
  "options' v (loader l (options' v (loader l u))) = options' v (loader l u)"
  by (simp_all add: loader_def options'_def)


































end
